theory Spec2Isabelle
  imports Complex_Main
begin

section \<open>JavaScript values\<close>

text \<open>
  Strings are lists of characters. A nullable field (\<open>string | null\<close>, or an optional
  property that may be \<open>undefined\<close>) is an \<open>option\<close>; \<open>null\<close> and \<open>undefined\<close> are both
  \<open>None\<close>, the code never tells them apart. A string is truthy when it is not empty.
\<close>

definition truthy :: "string option \<Rightarrow> bool" where
  "truthy v = (case v of None \<Rightarrow> False | Some s \<Rightarrow> s \<noteq> [])"

text \<open>
  A JavaScript number is a finite value or \<open>NaN\<close> (which \<open>parseFloat\<close> in the import route
  can produce). Every comparison with \<open>NaN\<close> is false, and \<open>NaN\<close> and \<open>0\<close> are falsy. The
  two infinities are left out: in the comparisons of the scorer they behave like a very
  large and a very small finite value. The scorer only compares the numbers it is given
  with constants and adds small integers, so no rounding takes place.
\<close>

datatype jsnum = NaN | Num real

definition num_lt :: "jsnum \<Rightarrow> real \<Rightarrow> bool" where
  "num_lt x c = (case x of NaN \<Rightarrow> False | Num r \<Rightarrow> r < c)"

definition num_ge :: "jsnum \<Rightarrow> real \<Rightarrow> bool" where
  "num_ge x c = (case x of NaN \<Rightarrow> False | Num r \<Rightarrow> c \<le> r)"

definition truthy_num :: "jsnum option \<Rightarrow> bool" where
  "truthy_num v = (case v of None \<Rightarrow> False | Some NaN \<Rightarrow> False | Some (Num r) \<Rightarrow> r \<noteq> 0)"

section \<open>Scorer: \<open>calculateLeadScore\<close>\<close>

record LeadInput =
  email :: "string option"
  phone :: "string option"
  website :: "string option"
  instagram_url :: "string option"
  google_rating :: "jsnum option"
  google_review_count :: "jsnum option"
  audit_score :: "jsnum option"
  business_name :: "string option"

text \<open>A factor carries its name, its score and its maximum; the rationale string
  (\<open>description\<close>) is display text that no result depends on and is left out.\<close>

record ScoreFactor =
  name :: string
  score :: int
  maxScore :: int

datatype grade = A | B | C | D | F

datatype priority = hot | warm | cold

record LeadScoreResult =
  total :: int
  grade :: grade
  priority :: priority
  factors :: "ScoreFactor list"
  recommendation :: string

text \<open>The body of \<open>calculateLeadScore\<close>, statement by statement: each \<open>let\<close> is one
  assignment of the source, \<open>total\<close>\<open>i\<close> and \<open>factors\<close>\<open>i\<close> are the running total and the
  factor list after factor \<open>i\<close>.\<close>

definition calculateLeadScore :: "LeadInput \<Rightarrow> LeadScoreResult" where
  "calculateLeadScore lead =
    (let emailScore = (if truthy (email lead) then 25 else 0);
         factors1 = [\<lparr>name = ''Email Available'', score = emailScore, maxScore = 25\<rparr>];
         total1 = 0 + emailScore;
         phoneScore = (if truthy (phone lead) then 15 else 0);
         factors2 = factors1 @ [\<lparr>name = ''Phone Available'', score = phoneScore, maxScore = 15\<rparr>];
         total2 = total1 + phoneScore;
         websiteScore =
           (case audit_score lead of
              Some a \<Rightarrow>
                (if num_lt a 40 then 25
                 else if num_lt a 60 then 20
                 else if num_lt a 80 then 12
                 else 5)
            | None \<Rightarrow> (if truthy (website lead) then 12 else 18));
         factors3 = factors2 @ [\<lparr>name = ''Website Opportunity'', score = websiteScore, maxScore = 25\<rparr>];
         total3 = total2 + websiteScore;
         reviewScore =
           (case google_review_count lead of
              Some n \<Rightarrow>
                (if num_lt n 10 then 15
                 else if num_lt n 30 then 12
                 else if num_lt n 100 then 8
                 else 4)
            | None \<Rightarrow> 0);
         factors4 = factors3 @ [\<lparr>name = ''Review Opportunity'', score = reviewScore, maxScore = 15\<rparr>];
         total4 = total3 + reviewScore;
         socialScore =
           (if truthy (instagram_url lead) then 3 else 0)
           + (if truthy (website lead) then 4 else 0)
           + (if truthy_num (google_rating lead) \<and> (case google_rating lead of Some g \<Rightarrow> num_ge g 3 | None \<Rightarrow> False)
              then 3 else 0);
         factors5 = factors4 @ [\<lparr>name = ''Online Presence'', score = socialScore, maxScore = 10\<rparr>];
         total5 = total4 + socialScore;
         completeness =
           (if truthy (business_name lead) then 2 else 0)
           + (if truthy (email lead) then 3 else 0)
           + (if truthy (phone lead) then 2 else 0)
           + (if truthy (website lead) then 3 else 0);
         factors6 = factors5 @ [\<lparr>name = ''Data Completeness'', score = completeness, maxScore = 10\<rparr>];
         total6 = total5 + completeness;
         grade =
           (if total6 \<ge> 80 then A
            else if total6 \<ge> 65 then B
            else if total6 \<ge> 50 then C
            else if total6 \<ge> 35 then D
            else F);
         priority =
           (if total6 \<ge> 70 then hot
            else if total6 \<ge> 45 then warm
            else cold);
         recommendation =
           (if total6 \<ge> 80 then ''High-priority lead. Reach out immediately with a personalised pitch.''
            else if total6 \<ge> 65 then ''Strong lead. Send audit report and follow up within 24 hours.''
            else if total6 \<ge> 50 then ''Decent prospect. Enrich data and run website audit before outreach.''
            else if total6 \<ge> 35 then ''Needs more data. Find email or run audit to qualify further.''
            else ''Low priority. Focus on higher-scoring leads first.'')
     in \<lparr>total = total6, grade = grade, priority = priority, factors = factors6,
         recommendation = recommendation\<rparr>)"

section \<open>Strings\<close>

text \<open>
  The model is of ASCII text. \<open>toLowerCase\<close> maps \<open>A\<close>--\<open>Z\<close> to \<open>a\<close>--\<open>z\<close> and leaves every
  other character alone; \<open>trim\<close> removes the white space of the ASCII range (tab, line
  feed, vertical tab, form feed, carriage return, space) at both ends.
\<close>

definition toLowerChar :: "char \<Rightarrow> char" where
  "toLowerChar c =
    (case map_of (zip ''ABCDEFGHIJKLMNOPQRSTUVWXYZ'' ''abcdefghijklmnopqrstuvwxyz'') c of
       Some l \<Rightarrow> l
     | None \<Rightarrow> c)"

definition toLowerCase :: "string \<Rightarrow> string" where
  "toLowerCase s = map toLowerChar s"

definition isWhiteSpace :: "char \<Rightarrow> bool" where
  "isWhiteSpace c = (c \<in> set [CHR 0x09, CHR 0x0A, CHR 0x0B, CHR 0x0C, CHR 0x0D, CHR 0x20])"

definition trim :: "string \<Rightarrow> string" where
  "trim s = rev (dropWhile isWhiteSpace (rev (dropWhile isWhiteSpace s)))"

text \<open>\<open>startsWith s p\<close> is \<open>s.startsWith(p)\<close>, \<open>endsWith s p\<close> is \<open>s.endsWith(p)\<close> and
  \<open>str_includes s p\<close> is \<open>s.includes(p)\<close>.\<close>

fun startsWith :: "string \<Rightarrow> string \<Rightarrow> bool" where
  "startsWith s [] = True"
| "startsWith [] (p # ps) = False"
| "startsWith (c # cs) (p # ps) = (c = p \<and> startsWith cs ps)"

definition endsWith :: "string \<Rightarrow> string \<Rightarrow> bool" where
  "endsWith s p = startsWith (rev s) (rev p)"

fun str_includes :: "string \<Rightarrow> string \<Rightarrow> bool" where
  "str_includes [] p = (p = [])"
| "str_includes (c # cs) p = (startsWith (c # cs) p \<or> str_includes cs p)"

text \<open>\<open>v || ''\<close> on a nullable string.\<close>

definition orEmpty :: "string option \<Rightarrow> string" where
  "orEmpty v = (case v of None \<Rightarrow> [] | Some s \<Rightarrow> s)"

section \<open>Search results: \<open>LeadResult\<close>\<close>

record LeadResult =
  business_name :: string
  address :: "string option"
  city :: "string option"
  country :: "string option"
  phone :: "string option"
  email :: "string option"
  website :: "string option"
  instagram_url :: "string option"
  google_rating :: "jsnum option"
  google_review_count :: "jsnum option"
  google_maps_url :: "string option"
  source :: string

section \<open>De-duplication by business name (search handler)\<close>

text \<open>
  The handler filters \<open>results\<close> with a callback that reads and extends the set \<open>seen\<close>;
  \<open>Array.prototype.filter\<close> calls it on the elements from left to right, so the set is
  threaded through the list. \<open>business_name\<close> has type \<open>string\<close>, so of the first guard
  only the test for the empty string is left.
\<close>

fun dedupe_from :: "string set \<Rightarrow> LeadResult list \<Rightarrow> LeadResult list" where
  "dedupe_from seen [] = []"
| "dedupe_from seen (r # rs) =
    (if business_name r = [] then dedupe_from seen rs
     else
       (let key = trim (toLowerCase (business_name r)) in
        if key = [] \<or> length key < 2 \<or> key \<in> seen then dedupe_from seen rs
        else r # dedupe_from (insert key seen) rs))"

definition dedupe :: "LeadResult list \<Rightarrow> LeadResult list" where
  "dedupe results = dedupe_from {} results"

text \<open>The key of a candidate, as the callback computes it.\<close>

definition nameKey :: "LeadResult \<Rightarrow> string" where
  "nameKey r = trim (toLowerCase (business_name r))"

section \<open>Location filter of \<open>scrapeGoogleMaps\<close>\<close>

text \<open>The last two statements of \<open>scrapeGoogleMaps\<close>, on the list \<open>mapped\<close> of the leads
  built from the provider's answer.\<close>

definition inLocation :: "string \<Rightarrow> LeadResult \<Rightarrow> bool" where
  "inLocation location r =
    (let address = toLowerCase (orEmpty (address r));
         city = toLowerCase (orEmpty (city r));
         loc = trim (toLowerCase location)
     in str_includes address loc \<or> str_includes city loc \<or> city = loc)"

definition locationFilter :: "string \<Rightarrow> LeadResult list \<Rightarrow> LeadResult list" where
  "locationFilter location mapped =
    (let filtered = filter (inLocation location) mapped
     in if length filtered > 0 then take 30 filtered else take 30 mapped)"

section \<open>Regular expressions of the enrichment code\<close>

text \<open>
  The code finds e-mail addresses with \<open>String.prototype.match\<close> and the global regular
  expression \<open>/[a-zA-Z0-9._%+-]+@[a-zA-Z0-9.-]+\.[a-zA-Z]{2,}/g\<close>. The functions below
  are that matcher: \<open>matchEmailAt s\<close> is the match that starts at the first character of
  \<open>s\<close>, if there is one, and \<open>matchAllEmails\<close> scans from left to right, resuming after
  each match and one character further on where nothing matches.
\<close>

definition isLetter :: "char \<Rightarrow> bool" where
  "isLetter c = (c \<in> set ''abcdefghijklmnopqrstuvwxyzABCDEFGHIJKLMNOPQRSTUVWXYZ'')"

definition isDigit :: "char \<Rightarrow> bool" where
  "isDigit c = (c \<in> set ''0123456789'')"

definition isEmailLocalChar :: "char \<Rightarrow> bool" where
  "isEmailLocalChar c = (isLetter c \<or> isDigit c \<or> c \<in> set ''._%+-'')"

definition isEmailDomainChar :: "char \<Rightarrow> bool" where
  "isEmailDomainChar c = (isLetter c \<or> isDigit c \<or> c \<in> set ''.-'')"

text \<open>
  The local part is greedy; only its longest run can be followed by \<open>@\<close>, which is not in
  its class. The domain part is greedy too and gives characters back one at a time:
  \<open>domainSplit d m\<close> tries the lengths \<open>m\<close>, \<open>m - 1\<close>, \<dots>, \<open>1\<close> of the domain part inside
  the run \<open>d\<close> of domain characters and returns the first one that is followed by a dot and
  at least two letters.
\<close>

fun domainSplit :: "string \<Rightarrow> nat \<Rightarrow> nat option" where
  "domainSplit d 0 = None"
| "domainSplit d (Suc m) =
    (if Suc m < length d \<and> d ! Suc m = CHR ''.''
        \<and> length (takeWhile isLetter (drop (Suc (Suc m)) d)) \<ge> 2
     then Some (Suc m)
     else domainSplit d m)"

definition matchEmailAt :: "string \<Rightarrow> string option" where
  "matchEmailAt s =
    (let local = takeWhile isEmailLocalChar s in
     if local = [] then None
     else
       (case drop (length local) s of
          [] \<Rightarrow> None
        | c # afterAt \<Rightarrow>
            if c \<noteq> CHR ''@'' then None
            else
              (let d = takeWhile isEmailDomainChar afterAt in
               case domainSplit d (length d) of
                 None \<Rightarrow> None
               | Some m \<Rightarrow>
                   Some (local @ ''@'' @ take m d @ ''.''
                         @ takeWhile isLetter (drop (Suc m) d)))))"

function matchAllEmails :: "string \<Rightarrow> string list" where
  "matchAllEmails [] = []"
| "matchAllEmails (c # cs) =
    (case matchEmailAt (c # cs) of
       None \<Rightarrow> matchAllEmails cs
     | Some m \<Rightarrow> m # matchAllEmails (drop (length m) (c # cs)))"
  by pat_completeness auto
termination
proof (relation "measure length")
  fix c cs m
  assume "matchEmailAt (c # cs) = Some m"
  then have "m \<noteq> []"
    by (auto simp: matchEmailAt_def Let_def split: if_splits list.splits option.splits)
  then show "(drop (length m) (c # cs), c # cs) \<in> measure length"
    by (cases m) auto
qed auto

section \<open>E-mail selection of \<open>enrichFromWebsite\<close>\<close>

text \<open>The callback of the \<open>filter\<close> call on the matches.\<close>

definition keepEmail :: "string \<Rightarrow> bool" where
  "keepEmail e =
    (let lower = toLowerCase e in
     \<not> endsWith lower ''.png'' \<and> \<not> endsWith lower ''.jpg'' \<and> \<not> endsWith lower ''.gif''
     \<and> \<not> endsWith lower ''.svg'' \<and> \<not> endsWith lower ''.webp'' \<and> \<not> endsWith lower ''.css''
     \<and> \<not> endsWith lower ''.js'' \<and> \<not> str_includes lower ''example.com''
     \<and> \<not> str_includes lower ''sentry'' \<and> \<not> str_includes lower ''webpack''
     \<and> \<not> str_includes lower ''wixpress'' \<and> \<not> str_includes lower ''schema.org''
     \<and> \<not> str_includes lower ''googleapis'' \<and> \<not> str_includes lower ''cloudflare''
     \<and> \<not> str_includes lower ''@2x'' \<and> \<not> str_includes lower ''noreply''
     \<and> \<not> str_includes lower ''no-reply''
     \<and> length lower < 60 \<and> length lower > 5)"

text \<open>
  \<open>s.replace(/https?:\/\//, '')\<close> removes the leftmost \<open>http://\<close> or \<open>https://\<close>,
  \<open>s.replace(/\/$/, '')\<close> a slash at the very end, and \<open>s.replace(p, '')\<close> with a string
  \<open>p\<close> the leftmost occurrence of \<open>p\<close>.
\<close>

fun removeScheme :: "string \<Rightarrow> string" where
  "removeScheme [] = []"
| "removeScheme (c # cs) =
    (if startsWith (c # cs) ''https://'' then drop 8 (c # cs)
     else if startsWith (c # cs) ''http://'' then drop 7 (c # cs)
     else c # removeScheme cs)"

definition removeTrailingSlash :: "string \<Rightarrow> string" where
  "removeTrailingSlash s = (if endsWith s ''/'' then butlast s else s)"

fun removeFirst :: "string \<Rightarrow> string \<Rightarrow> string" where
  "removeFirst p [] = []"
| "removeFirst p (c # cs) =
    (if startsWith (c # cs) p then drop (length p) (c # cs) else c # removeFirst p cs)"

definition websiteDomain :: "string \<Rightarrow> string" where
  "websiteDomain site = removeTrailingSlash (removeScheme site)"

text \<open>\<open>findIndex\<close> is \<open>Array.prototype.findIndex\<close>: the index of the first element that
  satisfies the predicate, \<open>-1\<close> when there is none.\<close>

fun findIndex :: "('a \<Rightarrow> bool) \<Rightarrow> 'a list \<Rightarrow> int" where
  "findIndex P [] = - 1"
| "findIndex P (x # xs) =
    (if P x then 0 else (let i = findIndex P xs in if i = - 1 then - 1 else i + 1))"

definition prefOrder :: "string list" where
  "prefOrder = [''info@'', ''hello@'', ''contact@'', ''enquiries@'', ''bookings@'', ''reception@'']"

text \<open>
  The comparator handed to \<open>emails.sort\<close>. \<open>domainRank\<close> is its \<open>aIsDomain\<close> (0 for an address
  that contains \<open>domainClean\<close>, else 1) and \<open>prefRank\<close> its \<open>aIdx === -1 ? 99 : aIdx\<close>.
\<close>

definition domainRank :: "string \<Rightarrow> string \<Rightarrow> int" where
  "domainRank domainClean a = (if str_includes a domainClean then 0 else 1)"

definition prefRank :: "string \<Rightarrow> int" where
  "prefRank a =
    (let aIdx = findIndex (\<lambda>p. startsWith (toLowerCase a) p) prefOrder
     in if aIdx = - 1 then 99 else aIdx)"

definition emailCompare :: "string \<Rightarrow> string \<Rightarrow> string \<Rightarrow> int" where
  "emailCompare domainClean a b =
    (let aIsDomain = domainRank domainClean a;
         bIsDomain = domainRank domainClean b
     in if aIsDomain \<noteq> bIsDomain then aIsDomain - bIsDomain
        else prefRank a - prefRank b)"

text \<open>
  \<open>Array.prototype.sort\<close> is a stable sort (ECMAScript 2019): with a comparator that
  orders by a key, as this one does, it returns the elements in the order of a stable
  insertion sort, in which an element goes in front of the first one it does not exceed.
\<close>

fun insertBy :: "('a \<Rightarrow> 'a \<Rightarrow> int) \<Rightarrow> 'a \<Rightarrow> 'a list \<Rightarrow> 'a list" where
  "insertBy cmp x [] = [x]"
| "insertBy cmp x (y # ys) = (if cmp x y \<le> 0 then x # y # ys else y # insertBy cmp x ys)"

definition sortBy :: "('a \<Rightarrow> 'a \<Rightarrow> int) \<Rightarrow> 'a list \<Rightarrow> 'a list" where
  "sortBy cmp xs = foldr (insertBy cmp) xs []"

text \<open>The inside of the block \<open>// Extract emails\<close>: the value assigned to \<open>lead.email\<close>,
  if any.\<close>

definition selectEmail :: "string \<Rightarrow> string \<Rightarrow> string option" where
  "selectEmail domain allText =
    (let emails = filter keepEmail (matchAllEmails allText);
         domainClean = removeFirst ''www.'' domain;
         sorted = sortBy (emailCompare domainClean) emails
     in case sorted of [] \<Rightarrow> None | e # _ \<Rightarrow> Some e)"

section \<open>Instagram and phone extraction of \<open>enrichFromWebsite\<close>\<close>

text \<open>
  \<open>/(?:https?:\/\/)?(?:www\.)?instagram\.com\/([a-zA-Z0-9_.]{2,30})\/?/gi\<close>, matched
  without regard to case. \<open>matchInstagramAt s\<close> is the match at the first character of
  \<open>s\<close>: the captured handle and the length of the whole match. An optional prefix that is
  present is always taken: what follows it in the pattern cannot start where the prefix
  starts.
\<close>

definition isHandleChar :: "char \<Rightarrow> bool" where
  "isHandleChar c = (isLetter c \<or> isDigit c \<or> c \<in> set ''_.'')"

definition matchInstagramAt :: "string \<Rightarrow> (string \<times> nat) option" where
  "matchInstagramAt s =
    (let lower = toLowerCase s;
         n1 = (if startsWith lower ''https://'' then 8
               else if startsWith lower ''http://'' then 7 else 0);
         n2 = (if startsWith (drop n1 lower) ''www.'' then 4 else 0)
     in if \<not> startsWith (drop (n1 + n2) lower) ''instagram.com/'' then None
        else
          (let handle = take 30 (takeWhile isHandleChar (drop (n1 + n2 + 14) s));
               n3 = n1 + n2 + 14 + length handle
           in if length handle < 2 then None
              else Some (handle, n3 + (if startsWith (drop n3 s) ''/'' then 1 else 0))))"

text \<open>The \<open>while ((match = igRegex.exec(allText)) !== null)\<close> loop: the handles
  \<open>match[1]\<close> of the successive matches.\<close>

function instagramHandles :: "string \<Rightarrow> string list" where
  "instagramHandles [] = []"
| "instagramHandles (c # cs) =
    (case matchInstagramAt (c # cs) of
       None \<Rightarrow> instagramHandles cs
     | Some (handle, n) \<Rightarrow> handle # instagramHandles (drop n (c # cs)))"
  by pat_completeness auto
termination
proof (relation "measure length")
  fix c cs x handle n
  assume "matchInstagramAt (c # cs) = Some x" and "(handle, n) = x"
  then have "n > 0"
    by (auto simp: matchInstagramAt_def Let_def split: if_splits)
  then show "(drop n (c # cs), c # cs) \<in> measure length"
    by (cases n) auto
qed auto

definition reservedHandles :: "string list" where
  "reservedHandles = [''p'', ''reel'', ''reels'', ''stories'', ''explore'', ''accounts'', ''about'',
     ''developer'', ''legal'', ''privacy'', ''terms'', ''help'']"

text \<open>The inside of the block \<open>// Extract Instagram\<close>: the value assigned to
  \<open>lead.instagram_url\<close>, if any.\<close>

definition selectInstagram :: "string \<Rightarrow> string option" where
  "selectInstagram allText =
    (let igMatches =
           map (\<lambda>h. ''https://instagram.com/'' @ h)
             (filter (\<lambda>h. toLowerCase h \<notin> set reservedHandles) (instagramHandles allText))
     in case igMatches of [] \<Rightarrow> None | u # _ \<Rightarrow> Some u)"

text \<open>
  \<open>/(?:tel:|phone:|call\s*:?\s*)?(\+?[\d][\d\s()-]{9,18}\d)/gi\<close>. \<open>phonePrefixLen s\<close> is
  the length of the optional prefix at the start of \<open>s\<close> (the same pattern, anchored, is
  what the code strips from each match afterwards). After the first digit the pattern
  takes up to 18 characters of its class and gives them back one at a time until a
  digit follows: \<open>phoneRun r n\<close> tries the lengths \<open>n\<close>, \<open>n - 1\<close>, \<dots>, \<open>9\<close> inside the run \<open>r\<close>
  of class characters.
\<close>

definition isPhoneChar :: "char \<Rightarrow> bool" where
  "isPhoneChar c = (isDigit c \<or> isWhiteSpace c \<or> c \<in> set ''()-'')"

definition phonePrefixLen :: "string \<Rightarrow> nat" where
  "phonePrefixLen s =
    (let lower = toLowerCase s in
     if startsWith lower ''tel:'' then 4
     else if startsWith lower ''phone:'' then 6
     else if startsWith lower ''call'' then
       (let w1 = length (takeWhile isWhiteSpace (drop 4 s));
            k = (if startsWith (drop (4 + w1) s) '':'' then 1 else 0);
            w2 = length (takeWhile isWhiteSpace (drop (4 + w1 + k) s))
        in 4 + w1 + k + w2)
     else 0)"

fun phoneRun :: "string \<Rightarrow> nat \<Rightarrow> nat option" where
  "phoneRun r n =
    (if n < 9 then None
     else if n < length r \<and> isDigit (r ! n) then Some n
     else (case n of 0 \<Rightarrow> None | Suc k \<Rightarrow> phoneRun r k))"

definition matchPhoneAt :: "string \<Rightarrow> string option" where
  "matchPhoneAt s =
    (let n0 = phonePrefixLen s;
         n1 = (if startsWith (drop n0 s) ''+'' then 1 else 0)
     in case drop (n0 + n1) s of
          [] \<Rightarrow> None
        | d # rest \<Rightarrow>
            if \<not> isDigit d then None
            else
              (let r = takeWhile isPhoneChar rest in
               case phoneRun r (min 18 (length r)) of
                 None \<Rightarrow> None
               | Some n \<Rightarrow> Some (take (n0 + n1 + 1 + n + 1) s)))"

function matchAllPhones :: "string \<Rightarrow> string list" where
  "matchAllPhones [] = []"
| "matchAllPhones (c # cs) =
    (case matchPhoneAt (c # cs) of
       None \<Rightarrow> matchAllPhones cs
     | Some m \<Rightarrow> m # matchAllPhones (drop (length m) (c # cs)))"
  by pat_completeness auto
termination
proof (relation "measure length")
  fix c cs m
  assume "matchPhoneAt (c # cs) = Some m"
  then have "m \<noteq> []"
    by (auto simp: matchPhoneAt_def Let_def split: if_splits list.splits option.splits)
  then show "(drop (length m) (c # cs), c # cs) \<in> measure length"
    by (cases m) auto
qed auto

text \<open>The inside of the block \<open>// Extract phone if missing\<close>: the value assigned to
  \<open>lead.phone\<close>, if any.\<close>

definition selectPhone :: "string \<Rightarrow> string option" where
  "selectPhone allText =
    (let phones =
           filter (\<lambda>p. let digits = filter isDigit p in length digits \<ge> 10 \<and> length digits \<le> 15)
             (map (\<lambda>p. trim (drop (phonePrefixLen p) p)) (matchAllPhones allText))
     in case phones of [] \<Rightarrow> None | p # _ \<Rightarrow> Some p)"

section \<open>Website enrichment of the search route: \<open>enrichFromWebsite\<close>\<close>

text \<open>
  The environment of a request: the configured Firecrawl credential (\<open>getKey\<close> returns
  the empty string when there is none) and the crawl service. \<open>firecrawl env url\<close> is
  \<open>Some\<close> of the page's markdown (\<open>data?.data?.markdown || ''\<close>) when the request for \<open>url\<close>
  succeeds with an \<open>ok\<close> response, and \<open>None\<close> when it throws or the response is not \<open>ok\<close>:
  the code skips such a page inside its own \<open>try\<close>/\<open>catch\<close>.
\<close>

record env =
  firecrawlKey :: string
  firecrawl :: "string \<Rightarrow> string option"

definition contactPaths :: "string list" where
  "contactPaths = [''/contact'', ''/contact-us'', ''/about'', ''/about-us'']"

text \<open>The loop over \<open>contactPaths\<close>: the text it appends to \<open>allText\<close>. It stops at the
  first page with more than 100 characters.\<close>

fun contactPageText :: "(string \<Rightarrow> string option) \<Rightarrow> string \<Rightarrow> string list \<Rightarrow> string" where
  "contactPageText fetchPage domain [] = []"
| "contactPageText fetchPage domain (path # paths) =
    (case fetchPage (''https://'' @ domain @ path) of
       Some md \<Rightarrow>
         if length md > 100 then md @ [CHR 0x0A]
         else contactPageText fetchPage domain paths
     | None \<Rightarrow> contactPageText fetchPage domain paths)"

text \<open>
  The three extraction blocks of \<open>enrichFromWebsite\<close>, each guarded by the test that the
  field is missing: \<open>if (!lead.email) {\<dots>}\<close>, \<open>if (!lead.instagram_url) {\<dots>}\<close> and
  \<open>if (!lead.phone) {\<dots>}\<close>. They assign to the lead they are given; the model returns the
  lead after the assignment.
\<close>

definition fillEmail :: "string \<Rightarrow> string \<Rightarrow> LeadResult \<Rightarrow> LeadResult" where
  "fillEmail domain allText lead =
    (if \<not> truthy (email lead) then
       (case selectEmail domain allText of
          Some e \<Rightarrow> lead\<lparr>email := Some e\<rparr>
        | None \<Rightarrow> lead)
     else lead)"

definition fillInstagram :: "string \<Rightarrow> LeadResult \<Rightarrow> LeadResult" where
  "fillInstagram allText lead =
    (if \<not> truthy (instagram_url lead) then
       (case selectInstagram allText of
          Some u \<Rightarrow> lead\<lparr>instagram_url := Some u\<rparr>
        | None \<Rightarrow> lead)
     else lead)"

definition fillPhone :: "string \<Rightarrow> LeadResult \<Rightarrow> LeadResult" where
  "fillPhone allText lead =
    (if \<not> truthy (phone lead) then
       (case selectPhone allText of
          Some p \<Rightarrow> lead\<lparr>phone := Some p\<rparr>
        | None \<Rightarrow> lead)
     else lead)"

text \<open>
  \<open>enrichFromWebsite\<close>: the early returns, the crawl of the home page and of the contact
  pages into \<open>allText\<close>, and the three blocks in the order of the source. Nothing inside
  the outer \<open>try\<close> throws on a lead of type \<open>LeadResult\<close>, so its \<open>catch\<close> has no branch
  here.
\<close>

definition enrichFromWebsite :: "env \<Rightarrow> LeadResult \<Rightarrow> LeadResult" where
  "enrichFromWebsite env lead =
    (case website lead of
       None \<Rightarrow> lead
     | Some site \<Rightarrow>
         if site = [] then lead
         else if truthy (email lead) \<and> truthy (instagram_url lead) then lead
         else if firecrawlKey env = [] then lead
         else
           (let domain = websiteDomain site;
                homeText = (case firecrawl env site of Some md \<Rightarrow> md @ [CHR 0x0A] | None \<Rightarrow> []);
                allText =
                  homeText
                  @ (if \<not> truthy (email lead) then contactPageText (firecrawl env) domain contactPaths
                     else [])
            in if length allText = 0 then lead
               else fillPhone allText (fillInstagram allText (fillEmail domain allText lead))))"

section \<open>Batches: \<open>enrichLeadsBatch\<close>\<close>

definition needsEnrichment :: "LeadResult \<Rightarrow> bool" where
  "needsEnrichment l = (truthy (website l) \<and> (\<not> truthy (email l) \<or> \<not> truthy (instagram_url l)))"

definition alreadyComplete :: "LeadResult \<Rightarrow> bool" where
  "alreadyComplete l = (\<not> truthy (website l) \<or> (truthy (email l) \<and> truthy (instagram_url l)))"

text \<open>
  The \<open>for (let i = 0; i < needsEnrichment.length; i += maxConcurrent)\<close> loop. One round
  crawls the leads of \<open>needsEnrichment.slice(i, i + maxConcurrent)\<close> and pushes the results,
  in the order of the batch, onto \<open>enriched\<close>. With \<open>maxConcurrent = 0\<close> the loop does not
  end; the result \<open>None\<close> stands for that.
\<close>

partial_function (option) enrichLoop ::
  "(LeadResult \<Rightarrow> LeadResult) \<Rightarrow> LeadResult list \<Rightarrow> nat \<Rightarrow> nat \<Rightarrow> LeadResult list
   \<Rightarrow> LeadResult list option" where
  "enrichLoop enrich needs maxConcurrent i enriched =
    (if i < length needs then
       enrichLoop enrich needs maxConcurrent (i + maxConcurrent)
         (enriched @ map enrich (take maxConcurrent (drop i needs)))
     else Some enriched)"

definition enrichLeadsBatch :: "env \<Rightarrow> LeadResult list \<Rightarrow> nat \<Rightarrow> LeadResult list option" where
  "enrichLeadsBatch env leads maxConcurrent =
    (let needs = filter needsEnrichment leads;
         complete = filter alreadyComplete leads
     in if length needs = 0 then Some leads
        else
          (case enrichLoop (enrichFromWebsite env) needs maxConcurrent 0 [] of
             None \<Rightarrow> None
           | Some enriched \<Rightarrow> Some (complete @ enriched)))"

section \<open>The enrichment route: extractors and the update of a stored lead\<close>

text \<open>\<open>extractEmails\<close>: the same regular expression, a shorter filter, and
  \<open>Array.from(new Set(filtered))\<close>, which keeps the first occurrence of each address.\<close>

definition extractEmails :: "string \<Rightarrow> string list" where
  "extractEmails text =
    (let filtered =
           filter (\<lambda>e. let lower = toLowerCase e in
                     \<not> endsWith lower ''.png'' \<and> \<not> endsWith lower ''.jpg''
                     \<and> \<not> endsWith lower ''.gif'' \<and> \<not> endsWith lower ''.svg''
                     \<and> \<not> str_includes lower ''example.com'' \<and> \<not> str_includes lower ''sentry''
                     \<and> \<not> str_includes lower ''webpack'' \<and> \<not> str_includes lower ''wixpress''
                     \<and> \<not> str_includes lower ''schema.org'' \<and> \<not> str_includes lower ''@2x''
                     \<and> length lower < 60)
             (matchAllEmails text)
     in rev (remdups (rev filtered)))"

text \<open>\<open>extractInstagram\<close>: one \<open>exec\<close> of
  \<open>/(?:https?:\/\/)?(?:www\.)?instagram\.com\/([a-zA-Z0-9_.]+)/gi\<close>, so only the leftmost
  match counts; \<open>firstInstagramHandle\<close> is its \<open>match[1]\<close>.\<close>

definition matchInstagramHandleAt :: "string \<Rightarrow> string option" where
  "matchInstagramHandleAt s =
    (let lower = toLowerCase s;
         n1 = (if startsWith lower ''https://'' then 8
               else if startsWith lower ''http://'' then 7 else 0);
         n2 = (if startsWith (drop n1 lower) ''www.'' then 4 else 0)
     in if \<not> startsWith (drop (n1 + n2) lower) ''instagram.com/'' then None
        else
          (let handle = takeWhile isHandleChar (drop (n1 + n2 + 14) s)
           in if handle = [] then None else Some handle))"

fun firstInstagramHandle :: "string \<Rightarrow> string option" where
  "firstInstagramHandle [] = None"
| "firstInstagramHandle (c # cs) =
    (case matchInstagramHandleAt (c # cs) of
       Some handle \<Rightarrow> Some handle
     | None \<Rightarrow> firstInstagramHandle cs)"

definition extractInstagram :: "string \<Rightarrow> string option" where
  "extractInstagram text =
    (case firstInstagramHandle text of
       Some handle \<Rightarrow>
         if handle \<notin> set [''p'', ''reel'', ''stories'', ''explore'', ''accounts'']
         then Some (''https://instagram.com/'' @ handle)
         else None
     | None \<Rightarrow> None)"

text \<open>\<open>extractPhones\<close>: \<open>/(?:\+?[\d\s\-().]{10,20})/g\<close>, then every character that is
  not a digit or \<open>+\<close> is removed and the first result of 10 to 15 characters is
  returned.\<close>

definition isLoosePhoneChar :: "char \<Rightarrow> bool" where
  "isLoosePhoneChar c = (isDigit c \<or> isWhiteSpace c \<or> c \<in> set ''-().'')"

definition matchLoosePhoneAt :: "string \<Rightarrow> string option" where
  "matchLoosePhoneAt s =
    (let n1 = (if startsWith s ''+'' then 1 else 0);
         r = takeWhile isLoosePhoneChar (drop n1 s)
     in if length r < 10 then None else Some (take (n1 + min 20 (length r)) s))"

function matchAllLoosePhones :: "string \<Rightarrow> string list" where
  "matchAllLoosePhones [] = []"
| "matchAllLoosePhones (c # cs) =
    (case matchLoosePhoneAt (c # cs) of
       None \<Rightarrow> matchAllLoosePhones cs
     | Some m \<Rightarrow> m # matchAllLoosePhones (drop (length m) (c # cs)))"
  by pat_completeness auto
termination
proof (relation "measure length")
  fix c cs m
  assume "matchLoosePhoneAt (c # cs) = Some m"
  then have "m \<noteq> []"
    by (auto simp: matchLoosePhoneAt_def Let_def split: if_splits)
  then show "(drop (length m) (c # cs), c # cs) \<in> measure length"
    by (cases m) auto
qed auto

definition extractPhones :: "string \<Rightarrow> string option" where
  "extractPhones text =
    (let cleaned =
           filter (\<lambda>p. length p \<ge> 10 \<and> length p \<le> 15)
             (map (filter (\<lambda>c. isDigit c \<or> c = CHR ''+'')) (matchAllLoosePhones text))
     in case cleaned of [] \<Rightarrow> None | p # _ \<Rightarrow> Some p)"

text \<open>
  A stored lead: the columns of a search result and \<open>updated_at\<close>. The route reads the
  row through \<open>website\<close>, \<open>email\<close>, \<open>phone\<close> and \<open>instagram_url\<close>, and its update names these
  three contact columns and \<open>updated_at\<close>; the columns of the store that the route neither
  reads nor writes are left out.
\<close>

record StoredLead = LeadResult +
  updated_at :: "string option"

text \<open>
  One round of the loop over \<open>leadIds\<close> in the route's \<open>POST\<close>, for a lead row that was
  found. \<open>enrichUpdates\<close> builds the object \<open>updates\<close> from the crawled text; a key that is
  not set is \<open>None\<close>. When at least one key is set, the route adds
  \<open>updated_at = new Date().toISOString()\<close>, here the argument \<open>now\<close>, and updates the row:
  \<open>enrichStoredLead\<close> is the row after that. The entry the route then adds to the activity
  log is a write to another table. \<open>crawlWithFirecrawl\<close> returns \<open>null\<close> without a
  credential or when the request fails.
\<close>

record LeadUpdates =
  upd_email :: "string option"
  upd_phone :: "string option"
  upd_instagram_url :: "string option"
  upd_updated_at :: "string option"

definition enrichUpdates :: "string \<Rightarrow> StoredLead \<Rightarrow> LeadUpdates" where
  "enrichUpdates text lead =
    \<lparr>upd_email =
       (if \<not> truthy (email lead) then
          (case extractEmails text of [] \<Rightarrow> None | e # _ \<Rightarrow> Some e)
        else None),
     upd_phone =
       (if \<not> truthy (phone lead) then
          (case extractPhones text of Some p \<Rightarrow> (if p \<noteq> [] then Some p else None) | None \<Rightarrow> None)
        else None),
     upd_instagram_url =
       (if \<not> truthy (instagram_url lead) then
          (case extractInstagram text of Some u \<Rightarrow> (if u \<noteq> [] then Some u else None) | None \<Rightarrow> None)
        else None),
     upd_updated_at = None\<rparr>"

text \<open>The update of the row with the keys of \<open>updates\<close>: a column whose key is not set
  keeps its value.\<close>

definition applyUpdates :: "LeadUpdates \<Rightarrow> StoredLead \<Rightarrow> StoredLead" where
  "applyUpdates u lead =
    lead\<lparr>email := (case upd_email u of Some e \<Rightarrow> Some e | None \<Rightarrow> email lead),
         phone := (case upd_phone u of Some p \<Rightarrow> Some p | None \<Rightarrow> phone lead),
         instagram_url :=
           (case upd_instagram_url u of Some i \<Rightarrow> Some i | None \<Rightarrow> instagram_url lead),
         updated_at :=
           (case upd_updated_at u of Some t \<Rightarrow> Some t | None \<Rightarrow> updated_at lead)\<rparr>"

definition crawlWithFirecrawl :: "env \<Rightarrow> string \<Rightarrow> string option" where
  "crawlWithFirecrawl env url = (if firecrawlKey env = [] then None else firecrawl env url)"

definition enrichStoredLead :: "env \<Rightarrow> string \<Rightarrow> StoredLead \<Rightarrow> StoredLead" where
  "enrichStoredLead env now lead =
    (case website lead of
       None \<Rightarrow> lead
     | Some site \<Rightarrow>
         if site = [] then lead
         else if truthy (email lead) \<and> truthy (phone lead) \<and> truthy (instagram_url lead) then lead
         else
           (case crawlWithFirecrawl env site of
              None \<Rightarrow> lead
            | Some text \<Rightarrow>
                (let updates = enrichUpdates text lead in
                 if upd_email updates = None \<and> upd_phone updates = None
                    \<and> upd_instagram_url updates = None
                 then lead
                 else applyUpdates (updates\<lparr>upd_updated_at := Some now\<rparr>) lead)))"

section \<open>The search handler: \<open>POST\<close> of the search route\<close>

text \<open>
  What a call can throw: an \<open>Error\<close> with its message, or some other value. The source
  adapters talk to external providers; \<open>adapters nm\<close> is the outcome of the adapter named
  \<open>nm\<close> on the request at hand, the list it returns (\<open>Inr\<close>) or what it throws (\<open>Inl\<close>).
\<close>

datatype exn = Error string | Thrown

record SearchRequest =
  req_niche :: string
  req_location :: string
  req_source :: string

record SearchState =
  results :: "LeadResult list"
  errors :: "string list"
  sourceStats :: "string \<rightharpoonup> nat"

text \<open>\<open>trySource\<close> updates \<open>results\<close>, \<open>errors\<close> and \<open>sourceStats\<close> of the enclosing handler;
  it returns the updated state, or the exception it throws again.\<close>

definition trySource ::
  "string \<Rightarrow> string \<Rightarrow> exn + LeadResult list \<Rightarrow> SearchState \<Rightarrow> exn + SearchState" where
  "trySource src nm outcome st =
    (case outcome of
       Inr r \<Rightarrow>
         if length r > 0 then
           Inr (st\<lparr>results := results st @ r, sourceStats := (sourceStats st)(nm \<mapsto> length r)\<rparr>)
         else Inr (st\<lparr>sourceStats := (sourceStats st)(nm \<mapsto> 0)\<rparr>)
     | Inl e \<Rightarrow>
         (let msg = (case e of Error m \<Rightarrow> m | Thrown \<Rightarrow> nm @ '' failed'');
              st' = st\<lparr>errors := errors st @ [msg], sourceStats := (sourceStats st)(nm \<mapsto> 0)\<rparr>
          in if src \<noteq> ''all'' then Inl e else Inr st'))"

text \<open>One line \<open>if (source === nm || source === 'all') await trySource(nm, \<dots>)\<close>, and the
  six of them in the order of the source.\<close>

definition runSource ::
  "string \<Rightarrow> (string \<Rightarrow> exn + LeadResult list) \<Rightarrow> string \<Rightarrow> SearchState \<Rightarrow> exn + SearchState" where
  "runSource src adapters nm st =
    (if src = nm \<or> src = ''all'' then trySource src nm (adapters nm) st else Inr st)"

fun runSources ::
  "string \<Rightarrow> (string \<Rightarrow> exn + LeadResult list) \<Rightarrow> string list \<Rightarrow> SearchState \<Rightarrow> exn + SearchState" where
  "runSources src adapters [] st = Inr st"
| "runSources src adapters (nm # nms) st =
    (case runSource src adapters nm st of
       Inl e \<Rightarrow> Inl e
     | Inr st' \<Rightarrow> runSources src adapters nms st')"

definition sourceNames :: "string list" where
  "sourceNames = [''google_maps'', ''yelp'', ''fresha'', ''yell'', ''yellow_pages'', ''bark'']"

text \<open>
  The block \<open>AUTO-ENRICH\<close>. The call of \<open>enrichLeadsBatch\<close> sits in a \<open>try\<close>/\<open>catch\<close>, so the
  block is written over the outcome of that call: \<open>None\<close> when it does not return,
  \<open>Some (Inl e)\<close> when it throws, \<open>Some (Inr enriched)\<close> when it returns. The handler calls
  it with \<open>handlerEnrichBatch\<close>, the function of this file, which never throws:
  \<open>enrichFromWebsite\<close> catches whatever its requests throw. A call that throws is taken
  to have left the leads of \<open>unique\<close> as they were.
\<close>

definition autoEnrich ::
  "string \<Rightarrow> (LeadResult list \<Rightarrow> nat \<Rightarrow> (exn + LeadResult list) option) \<Rightarrow> LeadResult list
   \<Rightarrow> LeadResult list option" where
  "autoEnrich key enrichBatch unique =
    (if key \<noteq> [] then
       (let toEnrich = take 15 unique;
            remaining = drop 15 unique
        in case enrichBatch toEnrich 3 of
             None \<Rightarrow> None
           | Some (Inr enriched) \<Rightarrow> Some (enriched @ remaining)
           | Some (Inl e) \<Rightarrow> Some unique)
     else Some unique)"

definition handlerEnrichBatch ::
  "env \<Rightarrow> LeadResult list \<Rightarrow> nat \<Rightarrow> (exn + LeadResult list) option" where
  "handlerEnrichBatch env leads maxConcurrent =
    map_option Inr (enrichLeadsBatch env leads maxConcurrent)"

record EnrichmentStats =
  withEmail :: nat
  withPhone :: nat
  withInstagram :: nat

record SearchBody =
  body_results :: "LeadResult list"
  body_count :: nat
  body_sourceStats :: "string \<rightharpoonup> nat"
  body_enrichmentStats :: EnrichmentStats
  body_errors :: "string list option"

datatype response = ErrorResponse nat string | OkResponse SearchBody

text \<open>The handler, from the parsed request body on. \<open>None\<close>: the handler does not
  return.\<close>

definition POST ::
  "env \<Rightarrow> (string \<Rightarrow> exn + LeadResult list) \<Rightarrow> SearchRequest \<Rightarrow> response option" where
  "POST env adapters req =
    (if req_niche req = [] \<or> req_location req = [] then
       Some (ErrorResponse 400 ''Niche and location are required'')
     else
       (case runSources (req_source req) adapters sourceNames
               \<lparr>results = [], errors = [], sourceStats = Map.empty\<rparr> of
          Inl e \<Rightarrow>
            Some (ErrorResponse 500 (case e of Error m \<Rightarrow> m | Thrown \<Rightarrow> ''Scraping failed''))
        | Inr st \<Rightarrow>
            (let unique = dedupe (results st) in
             case autoEnrich (firecrawlKey env) (handlerEnrichBatch env) unique of
               None \<Rightarrow> None
             | Some enrichedResults \<Rightarrow>
                 Some (OkResponse
                   \<lparr>body_results = enrichedResults,
                    body_count = length enrichedResults,
                    body_sourceStats = sourceStats st,
                    body_enrichmentStats =
                      \<lparr>withEmail = length (filter (\<lambda>r. truthy (email r)) enrichedResults),
                       withPhone = length (filter (\<lambda>r. truthy (phone r)) enrichedResults),
                       withInstagram =
                         length (filter (\<lambda>r. truthy (instagram_url r)) enrichedResults)\<rparr>,
                    body_errors = (if length (errors st) > 0 then Some (errors st) else None)\<rparr>))))"

section \<open>The scorer: totals, grades and priorities\<close>

text \<open>The total as a sum over the inputs: an e-mail address counts in two factors (25
  and 3 points), a phone number too (15 and 2), a website in three.\<close>

lemma total_closed_form:
  "total (calculateLeadScore lead) =
     (if truthy (LeadInput.email lead) then 28 else 0)
     + (if truthy (LeadInput.phone lead) then 17 else 0)
     + (case audit_score lead of
          Some a \<Rightarrow> (if num_lt a 40 then 25 else if num_lt a 60 then 20 else if num_lt a 80 then 12 else 5)
        | None \<Rightarrow> (if truthy (LeadInput.website lead) then 12 else 18))
     + (case LeadInput.google_review_count lead of
          Some n \<Rightarrow> (if num_lt n 10 then 15 else if num_lt n 30 then 12 else if num_lt n 100 then 8 else 4)
        | None \<Rightarrow> 0)
     + (if truthy (LeadInput.instagram_url lead) then 3 else 0)
     + (if truthy (LeadInput.website lead) then 7 else 0)
     + (if truthy_num (LeadInput.google_rating lead)
           \<and> (case LeadInput.google_rating lead of Some g \<Rightarrow> num_ge g 3 | None \<Rightarrow> False)
        then 3 else 0)
     + (if truthy (LeadInput.business_name lead) then 2 else 0)"
  by (simp add: calculateLeadScore_def Let_def)

lemma grade_of_total:
  "grade (calculateLeadScore lead) =
     (if total (calculateLeadScore lead) \<ge> 80 then A
      else if total (calculateLeadScore lead) \<ge> 65 then B
      else if total (calculateLeadScore lead) \<ge> 50 then C
      else if total (calculateLeadScore lead) \<ge> 35 then D
      else F)"
  by (simp add: calculateLeadScore_def Let_def split del: if_split cong: if_cong)

lemma priority_of_total:
  "priority (calculateLeadScore lead) =
     (if total (calculateLeadScore lead) \<ge> 70 then hot
      else if total (calculateLeadScore lead) \<ge> 45 then warm
      else cold)"
  by (simp add: calculateLeadScore_def Let_def split del: if_split cong: if_cong)

lemma factor_scores:
  "factors (calculateLeadScore lead) =
    [\<lparr>name = ''Email Available'', score = (if truthy (LeadInput.email lead) then 25 else 0), maxScore = 25\<rparr>,
     \<lparr>name = ''Phone Available'', score = (if truthy (LeadInput.phone lead) then 15 else 0), maxScore = 15\<rparr>,
     \<lparr>name = ''Website Opportunity'',
      score = (case audit_score lead of
          Some a \<Rightarrow> (if num_lt a 40 then 25 else if num_lt a 60 then 20 else if num_lt a 80 then 12 else 5)
        | None \<Rightarrow> (if truthy (LeadInput.website lead) then 12 else 18)), maxScore = 25\<rparr>,
     \<lparr>name = ''Review Opportunity'',
      score = (case LeadInput.google_review_count lead of
          Some n \<Rightarrow> (if num_lt n 10 then 15 else if num_lt n 30 then 12 else if num_lt n 100 then 8 else 4)
        | None \<Rightarrow> 0), maxScore = 15\<rparr>,
     \<lparr>name = ''Online Presence'',
      score = (if truthy (LeadInput.instagram_url lead) then 3 else 0)
           + (if truthy (LeadInput.website lead) then 4 else 0)
           + (if truthy_num (LeadInput.google_rating lead)
                 \<and> (case LeadInput.google_rating lead of Some g \<Rightarrow> num_ge g 3 | None \<Rightarrow> False)
              then 3 else 0), maxScore = 10\<rparr>,
     \<lparr>name = ''Data Completeness'',
      score = (if truthy (LeadInput.business_name lead) then 2 else 0)
           + (if truthy (LeadInput.email lead) then 3 else 0)
           + (if truthy (LeadInput.phone lead) then 2 else 0)
           + (if truthy (LeadInput.website lead) then 3 else 0), maxScore = 10\<rparr>]"
  by (simp add: calculateLeadScore_def Let_def split del: if_split cong: if_cong option.case_cong)

lemma total_sum_factors:
  "total (calculateLeadScore lead) = sum_list (map score (factors (calculateLeadScore lead)))"
  unfolding factor_scores
  by (simp add: calculateLeadScore_def Let_def split del: if_split cong: if_cong option.case_cong)

lemma factor_bounds:
  "list_all2 (\<lambda>f m. maxScore f = m \<and> 0 \<le> score f \<and> score f \<le> m)
        (factors (calculateLeadScore lead)) [25, 15, 25, 15, 10, 10]"
  unfolding factor_scores list_all2_Cons list_all2_Nil
  by (intro conjI) (simp_all split: option.split)

text \<open>
  Claim C1, as stated: adding an e-mail address to a lead raises the total by exactly 25.
  It does not: on the lead with no data at all, the address raises the total from 18 to
  46, because it counts 25 points in the factor \<open>Email Available\<close> and 3 more in
  \<open>Data Completeness\<close>.
\<close>

theorem email_adds_25_counterexample:
  "total (calculateLeadScore
      \<lparr>LeadInput.email = Some ''owner@acme.com'', LeadInput.phone = None,
       LeadInput.website = None, LeadInput.instagram_url = None,
       LeadInput.google_rating = None, LeadInput.google_review_count = None,
       LeadInput.audit_score = None, LeadInput.business_name = None\<rparr>)
   \<noteq> total (calculateLeadScore
      \<lparr>LeadInput.email = None, LeadInput.phone = None,
       LeadInput.website = None, LeadInput.instagram_url = None,
       LeadInput.google_rating = None, LeadInput.google_review_count = None,
       LeadInput.audit_score = None, LeadInput.business_name = None\<rparr>) + 25"
  by (simp add: total_closed_form truthy_def)

text \<open>
  Claim C1, amended: on a lead without an e-mail address (absent or empty), putting a
  non-empty address in raises the total by exactly 28, all other fields being equal; on a
  lead without a phone number, putting a non-empty number in raises it by exactly 17.
\<close>

theorem email_phone_increment:
  "(\<not> truthy (LeadInput.email lead) \<and> e \<noteq> [] \<longrightarrow>
      total (calculateLeadScore (lead\<lparr>LeadInput.email := Some e\<rparr>))
        = total (calculateLeadScore lead) + 28)
   \<and> (\<not> truthy (LeadInput.phone lead) \<and> p \<noteq> [] \<longrightarrow>
      total (calculateLeadScore (lead\<lparr>LeadInput.phone := Some p\<rparr>))
        = total (calculateLeadScore lead) + 17)"
  by (simp add: total_closed_form truthy_def)

theorem email_phone_increment_witness:
  "total (calculateLeadScore
      (\<lparr>LeadInput.email = None, LeadInput.phone = None,
       LeadInput.website = None, LeadInput.instagram_url = None,
       LeadInput.google_rating = None, LeadInput.google_review_count = None,
       LeadInput.audit_score = None, LeadInput.business_name = None\<rparr>\<lparr>LeadInput.email := Some ''owner@acme.com''\<rparr>))
     = total (calculateLeadScore
      \<lparr>LeadInput.email = None, LeadInput.phone = None,
       LeadInput.website = None, LeadInput.instagram_url = None,
       LeadInput.google_rating = None, LeadInput.google_review_count = None,
       LeadInput.audit_score = None, LeadInput.business_name = None\<rparr>) + 28
   \<and> total (calculateLeadScore
      (\<lparr>LeadInput.email = None, LeadInput.phone = None,
       LeadInput.website = None, LeadInput.instagram_url = None,
       LeadInput.google_rating = None, LeadInput.google_review_count = None,
       LeadInput.audit_score = None, LeadInput.business_name = None\<rparr>\<lparr>LeadInput.phone := Some ''020 7946 0958''\<rparr>))
     = total (calculateLeadScore
      \<lparr>LeadInput.email = None, LeadInput.phone = None,
       LeadInput.website = None, LeadInput.instagram_url = None,
       LeadInput.google_rating = None, LeadInput.google_review_count = None,
       LeadInput.audit_score = None, LeadInput.business_name = None\<rparr>) + 17"
  using email_phone_increment
    [of "\<lparr>LeadInput.email = None, LeadInput.phone = None,
       LeadInput.website = None, LeadInput.instagram_url = None,
       LeadInput.google_rating = None, LeadInput.google_review_count = None,
       LeadInput.audit_score = None, LeadInput.business_name = None\<rparr>"
        "''owner@acme.com''" "''020 7946 0958''"]
  by (simp add: truthy_def)

text \<open>
  Claim C2: grade and priority are functions of the total with the fixed thresholds:
  grade \<open>A\<close> exactly from 80, \<open>B\<close> from 65 to 79, \<open>C\<close> from 50 to 64, \<open>D\<close> from 35 to 49, \<open>F\<close>
  below 35; priority \<open>hot\<close> exactly from 70, \<open>warm\<close> from 45 to 69, \<open>cold\<close> below 45.
\<close>

theorem grade_priority_thresholds:
  "(grade (calculateLeadScore lead) = A \<longleftrightarrow> 80 \<le> total (calculateLeadScore lead))
   \<and> (grade (calculateLeadScore lead) = B \<longleftrightarrow>
        65 \<le> total (calculateLeadScore lead) \<and> total (calculateLeadScore lead) < 80)
   \<and> (grade (calculateLeadScore lead) = C \<longleftrightarrow>
        50 \<le> total (calculateLeadScore lead) \<and> total (calculateLeadScore lead) < 65)
   \<and> (grade (calculateLeadScore lead) = D \<longleftrightarrow>
        35 \<le> total (calculateLeadScore lead) \<and> total (calculateLeadScore lead) < 50)
   \<and> (grade (calculateLeadScore lead) = F \<longleftrightarrow> total (calculateLeadScore lead) < 35)
   \<and> (priority (calculateLeadScore lead) = hot \<longleftrightarrow> 70 \<le> total (calculateLeadScore lead))
   \<and> (priority (calculateLeadScore lead) = warm \<longleftrightarrow>
        45 \<le> total (calculateLeadScore lead) \<and> total (calculateLeadScore lead) < 70)
   \<and> (priority (calculateLeadScore lead) = cold \<longleftrightarrow> total (calculateLeadScore lead) < 45)"
proof -
  define t where "t = total (calculateLeadScore lead)"
  have g: "grade (calculateLeadScore lead) =
     (if t \<ge> 80 then A else if t \<ge> 65 then B else if t \<ge> 50 then C else if t \<ge> 35 then D else F)"
    unfolding t_def by (rule grade_of_total)
  have p: "priority (calculateLeadScore lead) = (if t \<ge> 70 then hot else if t \<ge> 45 then warm else cold)"
    unfolding t_def by (rule priority_of_total)
  show ?thesis
    unfolding g p t_def [symmetric] by auto
qed

text \<open>The ten boundary totals are reached, by the leads listed here (e-mail, phone,
  website, Instagram address, rating, name, audit score, number of reviews), with the
  grades and priorities of the thresholds.\<close>

lemma grade_priority_at_boundaries:
  "map (\<lambda>(e, p, w, i, g, n, a, r).
          let res = calculateLeadScore
                \<lparr>LeadInput.email = e, LeadInput.phone = p, LeadInput.website = w,
                 LeadInput.instagram_url = i, LeadInput.google_rating = g,
                 LeadInput.google_review_count = Some (Num r),
                 LeadInput.audit_score = Some (Num a), LeadInput.business_name = n\<rparr>
          in (total res, grade res, priority res))
     [(None, None, None, None, None, Some ''Acme'', 50, 20),
      (None, None, None, None, None, None, 50, 5),
      (None, None, Some ''https://acme.com'', None, None, Some ''Acme'', 20, 5),
      (None, None, Some ''https://acme.com'', None, Some (Num 4.5), None, 20, 5),
      (None, Some ''020 7946 0958'', Some ''https://acme.com'', None, None, None, 20, 5),
      (None, Some ''020 7946 0958'', None, Some ''https://instagram.com/acme'', Some (Num 4.5),
       Some ''Acme'', 20, 5),
      (None, Some ''020 7946 0958'', Some ''https://acme.com'', None, Some (Num 4.5),
       Some ''Acme'', 20, 5),
      (None, Some ''020 7946 0958'', Some ''https://acme.com'', Some ''https://instagram.com/acme'',
       Some (Num 4.5), None, 20, 5),
      (Some ''owner@acme.com'', Some ''020 7946 0958'', None, None, None, Some ''Acme'', 50, 20),
      (Some ''owner@acme.com'', None, Some ''https://acme.com'', None, Some (Num 4.5),
       Some ''Acme'', 20, 5)]
   = [(34, F, cold), (35, D, cold), (49, D, warm), (50, C, warm), (64, C, warm),
      (65, B, warm), (69, B, warm), (70, B, hot), (79, B, hot), (80, A, hot)]"
  by (simp add: Let_def total_closed_form grade_of_total priority_of_total
      truthy_def truthy_num_def num_lt_def num_ge_def)

text \<open>
  Claim C9: the total lies between 0 and 100. The six factors have the maxima 25, 15,
  25, 15, 10 and 10, each score lies between 0 and its maximum, and the total is the sum
  of the six scores; nothing has to be clamped.
\<close>

theorem total_in_range:
  "0 \<le> total (calculateLeadScore lead) \<and> total (calculateLeadScore lead) \<le> 100
   \<and> list_all2 (\<lambda>f m. maxScore f = m \<and> 0 \<le> score f \<and> score f \<le> m)
        (factors (calculateLeadScore lead)) [25, 15, 25, 15, 10, 10]
   \<and> total (calculateLeadScore lead) = sum_list (map score (factors (calculateLeadScore lead)))"
proof -
  obtain f1 f2 f3 f4 f5 f6 where fs: "factors (calculateLeadScore lead) = [f1, f2, f3, f4, f5, f6]"
    by (simp add: factor_scores)
  have b: "0 \<le> score f1 \<and> score f1 \<le> 25" "0 \<le> score f2 \<and> score f2 \<le> 15"
    "0 \<le> score f3 \<and> score f3 \<le> 25" "0 \<le> score f4 \<and> score f4 \<le> 15"
    "0 \<le> score f5 \<and> score f5 \<le> 10" "0 \<le> score f6 \<and> score f6 \<le> 10"
    using factor_bounds [of lead] unfolding fs by simp_all
  have s: "total (calculateLeadScore lead)
      = score f1 + score f2 + score f3 + score f4 + score f5 + score f6"
    unfolding total_sum_factors fs by simp
  from b s have "0 \<le> total (calculateLeadScore lead)" "total (calculateLeadScore lead) \<le> 100"
    by linarith+
  then show ?thesis
    using factor_bounds [of lead] total_sum_factors [of lead] by blast
qed

text \<open>The bound is attained: a lead with every field filled, a poor audit and few reviews
  scores 100.\<close>

lemma total_100_attained:
  "total (calculateLeadScore
      \<lparr>LeadInput.email = Some ''owner@acme.com'', LeadInput.phone = Some ''020 7946 0958'',
       LeadInput.website = Some ''https://acme.com'', LeadInput.instagram_url = Some ''https://instagram.com/acme'',
       LeadInput.google_rating = Some (Num 4.5), LeadInput.google_review_count = Some (Num 3),
       LeadInput.audit_score = Some (Num 20), LeadInput.business_name = Some ''Acme''\<rparr>) = 100"
  by (simp add: total_closed_form truthy_def truthy_num_def num_lt_def num_ge_def)

section \<open>De-duplication\<close>

text \<open>One step of the filter: a candidate is kept when its key has at least two
  characters and has not been seen. The empty name has the empty key, so the first test
  of the callback is covered.\<close>

lemma nameKey_empty: "business_name r = [] \<Longrightarrow> nameKey r = []"
  by (simp add: nameKey_def trim_def toLowerCase_def)

lemma dedupe_from_Cons:
  "dedupe_from seen (r # rs) =
    (if 2 \<le> length (nameKey r) \<and> nameKey r \<notin> seen
     then r # dedupe_from (insert (nameKey r) seen) rs
     else dedupe_from seen rs)"
proof (cases "business_name r = []")
  case True
  then show ?thesis by (simp add: nameKey_empty)
next
  case False
  then show ?thesis by (auto simp: nameKey_def Let_def)
qed

lemma dedupe_from_key_set:
  "nameKey ` set (dedupe_from seen cs) = {k \<in> nameKey ` set cs. 2 \<le> length k \<and> k \<notin> seen}"
proof (induction cs arbitrary: seen)
  case Nil
  then show ?case by simp
next
  case (Cons c cs)
  show ?case
  proof (cases "2 \<le> length (nameKey c) \<and> nameKey c \<notin> seen")
    case True
    then have "dedupe_from seen (c # cs) = c # dedupe_from (insert (nameKey c) seen) cs"
      by (simp add: dedupe_from_Cons del: dedupe_from.simps(2))
    then show ?thesis
      using True Cons.IH [of "insert (nameKey c) seen"] by auto
  next
    case False
    then have "dedupe_from seen (c # cs) = dedupe_from seen cs"
      by (auto simp: dedupe_from_Cons simp del: dedupe_from.simps(2))
    then show ?thesis
      using False Cons.IH [of seen] by auto
  qed
qed

lemma count_distinct_key:
  "distinct (map f xs) \<Longrightarrow>
   length (filter (\<lambda>x. f x = k) xs) = (if k \<in> f ` set xs then 1 else 0)"
  by (induction xs) auto

lemma dedupe_from_fixed:
  "\<forall>r \<in> set xs. 2 \<le> length (nameKey r) \<Longrightarrow> distinct (map nameKey xs) \<Longrightarrow>
   nameKey ` set xs \<inter> seen = {} \<Longrightarrow> dedupe_from seen xs = xs"
proof (induction xs arbitrary: seen)
  case Nil
  then show ?case by simp
next
  case (Cons x xs)
  have "nameKey ` set xs \<inter> insert (nameKey x) seen = {}"
    using Cons.prems by auto
  then have "dedupe_from (insert (nameKey x) seen) xs = xs"
    using Cons.IH Cons.prems by simp
  then show ?case
    unfolding dedupe_from_Cons using Cons.prems by auto
qed

lemma dedupe_from_keys:
  "(\<forall>r \<in> set (dedupe_from seen cs). 2 \<le> length (nameKey r) \<and> nameKey r \<notin> seen)
   \<and> distinct (map nameKey (dedupe_from seen cs))"
proof (induction cs arbitrary: seen)
  case Nil
  then show ?case by simp
next
  case (Cons c cs)
  show ?case
    unfolding dedupe_from_Cons using Cons.IH [of seen] Cons.IH [of "insert (nameKey c) seen"]
    by auto
qed

lemma dedupe_count:
  "length (filter (\<lambda>r. nameKey r = k) (dedupe cs)) =
     (if 2 \<le> length k \<and> k \<in> nameKey ` set cs then 1 else 0)"
proof -
  have "distinct (map nameKey (dedupe cs))"
    unfolding dedupe_def using dedupe_from_keys [of "{}" cs] by simp
  then have "length (filter (\<lambda>r. nameKey r = k) (dedupe cs))
      = (if k \<in> nameKey ` set (dedupe cs) then 1 else 0)"
    by (rule count_distinct_key)
  also have "nameKey ` set (dedupe cs) = {k \<in> nameKey ` set cs. 2 \<le> length k}"
    unfolding dedupe_def dedupe_from_key_set by simp
  finally show ?thesis by simp
qed

lemma dedupe_from_snoc:
  "dedupe_from seen (xs @ [x]) =
     dedupe_from seen xs
     @ (if 2 \<le> length (nameKey x) \<and> nameKey x \<notin> seen \<and> nameKey x \<notin> nameKey ` set xs
        then [x] else [])"
proof (induction xs arbitrary: seen)
  case Nil
  then show ?case by (simp add: dedupe_from_Cons del: dedupe_from.simps(2))
next
  case (Cons y ys)
  show ?case
    using Cons.IH [of seen] Cons.IH [of "insert (nameKey y) seen"]
    by (auto simp: dedupe_from_Cons simp del: dedupe_from.simps(2))
qed

lemma dedupe_snoc:
  "dedupe (xs @ [x]) =
     dedupe xs @ (if 2 \<le> length (nameKey x) \<and> nameKey x \<notin> nameKey ` set xs then [x] else [])"
  unfolding dedupe_def dedupe_from_snoc by simp

lemma key_among_earlier:
  "(\<forall>j<length xs. nameKey (xs ! j) \<noteq> k) \<longleftrightarrow> k \<notin> nameKey ` set xs"
  unfolding set_conv_nth by auto

lemma dedupe_idem: "dedupe (dedupe cs) = dedupe cs"
  unfolding dedupe_def
  using dedupe_from_keys [of "{}" cs] by (intro dedupe_from_fixed) auto

text \<open>
  Claim C3, as stated: de-duplication is idempotent, and two candidates whose names
  differ only in letter case leave exactly one entry for that name. The second part
  fails for a name of one character: the callback rejects every key shorter than two
  characters, so the candidates \<open>Q\<close> and \<open>q\<close> leave no entry at all.
\<close>

theorem dedupe_single_letter_counterexample:
  "dedupe (map (\<lambda>n. \<lparr>business_name = n, address = None, city = None, country = None,
                       phone = None, email = None, website = None, instagram_url = None,
                       google_rating = None, google_review_count = None,
                       google_maps_url = None, source = ''yelp''\<rparr>) [''Q'', ''q'']) = []"
  by (simp add: dedupe_def trim_def toLowerCase_def toLowerChar_def isWhiteSpace_def)

text \<open>
  Claim C3, amended: de-duplication is idempotent; a list that holds candidates whose
  names have the same key (they differ only in letter case and surrounding white space)
  leaves exactly one entry with that key, provided the key has at least two characters;
  and a name whose key is shorter leaves no entry.
\<close>

theorem dedupe_idempotent_one_survivor:
  "dedupe (dedupe cs) = dedupe cs
   \<and> (c \<in> set cs \<and> 2 \<le> length (nameKey c) \<longrightarrow>
        length (filter (\<lambda>r. nameKey r = nameKey c) (dedupe cs)) = 1)
   \<and> (length (nameKey d) < 2 \<longrightarrow>
        filter (\<lambda>r. nameKey r = nameKey d) (dedupe cs) = [])"
proof -
  have "length (filter (\<lambda>r. nameKey r = nameKey d) (dedupe cs)) = 0"
    if "length (nameKey d) < 2"
    using that dedupe_count [of "nameKey d" cs] by simp
  then show ?thesis
    using dedupe_idem [of cs] dedupe_count [of "nameKey c" cs] by auto
qed

theorem dedupe_idempotent_one_survivor_witness:
  "let cs = map (\<lambda>n. \<lparr>business_name = n, address = None, city = None, country = None,
                  phone = None, email = None, website = None, instagram_url = None,
                  google_rating = None, google_review_count = None,
                  google_maps_url = None, source = ''yelp''\<rparr>)
              [''Glow Spa'', ''  GLOW spa '', ''Q'', ''q'']
   in dedupe (dedupe cs) = dedupe cs
      \<and> length (filter (\<lambda>r. nameKey r = ''glow spa'') (dedupe cs)) = 1
      \<and> filter (\<lambda>r. nameKey r = ''q'') (dedupe cs) = []"
  using dedupe_idempotent_one_survivor
    [of "map (\<lambda>n. \<lparr>business_name = n, address = None, city = None, country = None,
                  phone = None, email = None, website = None, instagram_url = None,
                  google_rating = None, google_review_count = None,
                  google_maps_url = None, source = ''yelp''\<rparr>)
              [''Glow Spa'', ''  GLOW spa '', ''Q'', ''q'']"
        "(\<lambda>n. \<lparr>business_name = n, address = None, city = None, country = None,
                  phone = None, email = None, website = None, instagram_url = None,
                  google_rating = None, google_review_count = None,
                  google_maps_url = None, source = ''yelp''\<rparr>) ''Glow Spa''"
        "(\<lambda>n. \<lparr>business_name = n, address = None, city = None, country = None,
                  phone = None, email = None, website = None, instagram_url = None,
                  google_rating = None, google_review_count = None,
                  google_maps_url = None, source = ''yelp''\<rparr>) ''Q''"]
  by (simp add: nameKey_def trim_def toLowerCase_def toLowerChar_def isWhiteSpace_def)

text \<open>
  Claim C4, as stated: a candidate is dropped if and only if its name is empty or only
  white space, or an earlier candidate has the same normalized name. The single
  candidate \<open>Q\<close> is dropped, although its name is neither and nothing comes before it.
\<close>

theorem dedupe_drops_short_name_counterexample:
  "dedupe [\<lparr>business_name = ''Q'', address = None, city = None, country = None,
            phone = None, email = None, website = None, instagram_url = None,
            google_rating = None, google_review_count = None,
            google_maps_url = None, source = ''yelp''\<rparr>] = []
   \<and> trim ''Q'' \<noteq> []"
  by (simp add: dedupe_def trim_def toLowerCase_def toLowerChar_def isWhiteSpace_def)

text \<open>
  Claim C4, amended: candidates are keyed by the business name, lower-cased and trimmed.
  The survivors are, in arrival order, the candidates at the positions \<open>i\<close> whose key has
  at least two characters and differs from the key of every earlier candidate; so the
  first candidate with a given key survives, and a candidate is dropped if and only if
  its key has fewer than two characters (an empty or white-space name among them) or an
  earlier candidate of the list has the same key.
\<close>

theorem dedupe_positions:
  "dedupe cs = map (\<lambda>i. cs ! i)
     (filter (\<lambda>i. 2 \<le> length (nameKey (cs ! i)) \<and> (\<forall>j<i. nameKey (cs ! j) \<noteq> nameKey (cs ! i)))
        [0..<length cs])"
proof (induction cs rule: rev_induct)
  case Nil
  then show ?case by (simp add: dedupe_def)
next
  case (snoc x xs)
  let ?P = "\<lambda>cs i. 2 \<le> length (nameKey (cs ! i)) \<and> (\<forall>j<i. nameKey (cs ! j) \<noteq> nameKey (cs ! i))"
  have old: "filter (?P (xs @ [x])) [0..<length xs] = filter (?P xs) [0..<length xs]"
    by (rule filter_cong) (auto simp: nth_append)
  have old_map: "map (\<lambda>i. (xs @ [x]) ! i) (filter (?P xs) [0..<length xs])
      = map (\<lambda>i. xs ! i) (filter (?P xs) [0..<length xs])"
    by (rule map_cong) (auto simp: nth_append)
  have "(\<forall>j<length xs. nameKey ((xs @ [x]) ! j) \<noteq> nameKey x)
      \<longleftrightarrow> (\<forall>j<length xs. nameKey (xs ! j) \<noteq> nameKey x)"
    by (auto simp: nth_append)
  then have last: "?P (xs @ [x]) (length xs)
      \<longleftrightarrow> 2 \<le> length (nameKey x) \<and> nameKey x \<notin> nameKey ` set xs"
    using key_among_earlier [of xs "nameKey x"] by simp
  have "map (\<lambda>i. (xs @ [x]) ! i) (filter (?P (xs @ [x])) [0..<length (xs @ [x])])
      = map (\<lambda>i. xs ! i) (filter (?P xs) [0..<length xs])
        @ (if ?P (xs @ [x]) (length xs) then [x] else [])"
    using old old_map by simp
  then show ?case
    unfolding dedupe_snoc snoc.IH last by simp
qed

theorem dedupe_positions_witness:
  "map business_name
     (dedupe (map (\<lambda>n. \<lparr>business_name = n, address = None, city = None, country = None,
                       phone = None, email = None, website = None, instagram_url = None,
                       google_rating = None, google_review_count = None,
                       google_maps_url = None, source = ''yelp''\<rparr>)
               [''Glow Spa'', ''   '', ''glow spa'', ''Q'', ''Zen Den'']))
   = [''Glow Spa'', ''Zen Den'']"
  using dedupe_positions
    [of "map (\<lambda>n. \<lparr>business_name = n, address = None, city = None, country = None,
                       phone = None, email = None, website = None, instagram_url = None,
                       google_rating = None, google_review_count = None,
                       google_maps_url = None, source = ''yelp''\<rparr>)
               [''Glow Spa'', ''   '', ''glow spa'', ''Q'', ''Zen Den'']"]
  by (simp add: nameKey_def trim_def toLowerCase_def toLowerChar_def isWhiteSpace_def
      upt_rec [of _ "numeral _"] All_less_Suc numeral_eq_Suc)

section \<open>The location filter\<close>

text \<open>\<open>startsWith\<close> and \<open>str_includes\<close> are the prefix and the substring relation.\<close>

lemma startsWith_iff: "startsWith s p \<longleftrightarrow> (\<exists>suf. s = p @ suf)"
  by (induction s p rule: startsWith.induct) auto

lemma str_includes_iff: "str_includes s p \<longleftrightarrow> (\<exists>pre suf. s = pre @ p @ suf)"
proof (induction s)
  case Nil
  then show ?case by auto
next
  case (Cons c cs)
  have "(\<exists>pre suf. c # cs = pre @ p @ suf)
      \<longleftrightarrow> (\<exists>suf. c # cs = p @ suf) \<or> (\<exists>pre suf. cs = pre @ p @ suf)"
  proof
    assume "\<exists>pre suf. c # cs = pre @ p @ suf"
    then obtain pre suf where e: "c # cs = pre @ p @ suf" by blast
    show "(\<exists>suf. c # cs = p @ suf) \<or> (\<exists>pre suf. cs = pre @ p @ suf)"
    proof (cases pre)
      case Nil
      with e show ?thesis by auto
    next
      case (Cons a pre')
      with e have "cs = pre' @ p @ suf" by simp
      then show ?thesis by blast
    qed
  next
    assume "(\<exists>suf. c # cs = p @ suf) \<or> (\<exists>pre suf. cs = pre @ p @ suf)"
    then show "\<exists>pre suf. c # cs = pre @ p @ suf"
    proof
      assume "\<exists>suf. c # cs = p @ suf"
      then obtain suf where "c # cs = [] @ p @ suf" by auto
      then show ?thesis by blast
    next
      assume "\<exists>pre suf. cs = pre @ p @ suf"
      then obtain pre suf where "c # cs = (c # pre) @ p @ suf" by auto
      then show ?thesis by blast
    qed
  qed
  then show ?case
    using Cons.IH by (simp add: startsWith_iff)
qed

lemma inLocation_iff:
  "inLocation location r \<longleftrightarrow>
     (\<exists>pre suf. toLowerCase (orEmpty (address r)) = pre @ trim (toLowerCase location) @ suf)
     \<or> (\<exists>pre suf. toLowerCase (orEmpty (city r)) = pre @ trim (toLowerCase location) @ suf)"
proof -
  have "toLowerCase (orEmpty (city r)) = trim (toLowerCase location)
      \<Longrightarrow> \<exists>pre suf. toLowerCase (orEmpty (city r)) = pre @ trim (toLowerCase location) @ suf"
    by (metis append_Nil append_Nil2)
  then show ?thesis
    unfolding inLocation_def Let_def str_includes_iff by blast
qed

text \<open>
  Claim C5, as stated: when the filter leaves nothing, the unfiltered input list is
  returned. Both branches end in \<open>slice(0, 30)\<close>: of 31 candidates in Paris and a search
  for London, 30 are returned, not the input list.
\<close>

theorem location_filter_full_list_counterexample:
  "locationFilter ''London''
     (replicate 31 \<lparr>business_name = ''Glow Spa'', address = Some ''1 Rue de Rivoli'',
        city = Some ''Paris'', country = None, phone = None, email = None, website = None,
        instagram_url = None, google_rating = None, google_review_count = None,
        google_maps_url = None, source = ''google_maps''\<rparr>)
   \<noteq> replicate 31 \<lparr>business_name = ''Glow Spa'', address = Some ''1 Rue de Rivoli'',
        city = Some ''Paris'', country = None, phone = None, email = None, website = None,
        instagram_url = None, google_rating = None, google_review_count = None,
        google_maps_url = None, source = ''google_maps''\<rparr>"
proof -
  have "length (locationFilter ''London''
     (replicate 31 \<lparr>business_name = ''Glow Spa'', address = Some ''1 Rue de Rivoli'',
        city = Some ''Paris'', country = None, phone = None, email = None, website = None,
        instagram_url = None, google_rating = None, google_review_count = None,
        google_maps_url = None, source = ''google_maps''\<rparr>)) = 30"
    by (simp add: locationFilter_def inLocation_def Let_def orEmpty_def trim_def toLowerCase_def
        toLowerChar_def isWhiteSpace_def)
  then show ?thesis
    by (auto dest: arg_cong [where f = length])
qed

text \<open>
  Claim C5, amended: the filter returns the first 30 of the candidates whose address or
  city, lower-cased, contains the requested location, lower-cased and trimmed, as a
  substring; when no candidate does, it returns the first 30 candidates of the unfiltered
  list. So for a non-empty list the result is not empty.
\<close>

theorem location_filter_first_30:
  "locationFilter location mapped =
     (if \<exists>r \<in> set mapped. inLocation location r
      then take 30 (filter (inLocation location) mapped)
      else take 30 mapped)
   \<and> (mapped \<noteq> [] \<longrightarrow> locationFilter location mapped \<noteq> [])
   \<and> (inLocation location r \<longleftrightarrow>
        (\<exists>pre suf. toLowerCase (orEmpty (address r)) = pre @ trim (toLowerCase location) @ suf)
        \<or> (\<exists>pre suf. toLowerCase (orEmpty (city r)) = pre @ trim (toLowerCase location) @ suf))"
proof -
  have f: "filter (inLocation location) mapped = [] \<longleftrightarrow> \<not> (\<exists>r \<in> set mapped. inLocation location r)"
    by (simp add: filter_empty_conv)
  have eq: "locationFilter location mapped =
     (if \<exists>r \<in> set mapped. inLocation location r
      then take 30 (filter (inLocation location) mapped)
      else take 30 mapped)"
    using f by (simp add: locationFilter_def Let_def)
  have ne: "locationFilter location mapped \<noteq> []" if "mapped \<noteq> []"
    unfolding eq using that f by auto
  show ?thesis
    using eq ne inLocation_iff [of location r] by blast
qed

theorem location_filter_first_30_witness:
  "locationFilter '' london''
     (map (\<lambda>(a, c). \<lparr>business_name = ''Glow Spa'', address = a,
        city = c, country = None, phone = None, email = None, website = None,
        instagram_url = None, google_rating = None, google_review_count = None,
        google_maps_url = None, source = ''google_maps''\<rparr>)
       [(Some ''1 Rue de Rivoli'', Some ''Paris''), (None, Some ''Greater London''),
        (Some ''12 High St, LONDON N1'', None)])
   = map (\<lambda>(a, c). \<lparr>business_name = ''Glow Spa'', address = a,
        city = c, country = None, phone = None, email = None, website = None,
        instagram_url = None, google_rating = None, google_review_count = None,
        google_maps_url = None, source = ''google_maps''\<rparr>)
       [(None, Some ''Greater London''), (Some ''12 High St, LONDON N1'', None)]"
  using location_filter_first_30
    [of "'' london''" "map (\<lambda>(a, c). \<lparr>business_name = ''Glow Spa'', address = a,
        city = c, country = None, phone = None, email = None, website = None,
        instagram_url = None, google_rating = None, google_review_count = None,
        google_maps_url = None, source = ''google_maps''\<rparr>)
       [(Some ''1 Rue de Rivoli'', Some ''Paris''), (None, Some ''Greater London''),
        (Some ''12 High St, LONDON N1'', None)]"]
  by (simp add: inLocation_def Let_def orEmpty_def trim_def toLowerCase_def
        toLowerChar_def isWhiteSpace_def)

section \<open>Enrichment fills missing fields only\<close>

text \<open>Each block leaves a lead alone whose field is truthy, and changes no other field.\<close>

lemma fill_email_fields:
  "(truthy (email lead) \<longrightarrow> fillEmail domain allText lead = lead)
   \<and> phone (fillEmail domain allText lead) = phone lead
   \<and> instagram_url (fillEmail domain allText lead) = instagram_url lead
   \<and> fillEmail domain allText lead = lead\<lparr>email := email (fillEmail domain allText lead)\<rparr>"
  by (simp add: fillEmail_def split: option.split)

lemma fill_instagram_fields:
  "(truthy (instagram_url lead) \<longrightarrow> fillInstagram allText lead = lead)
   \<and> phone (fillInstagram allText lead) = phone lead
   \<and> email (fillInstagram allText lead) = email lead
   \<and> fillInstagram allText lead = lead\<lparr>instagram_url := instagram_url (fillInstagram allText lead)\<rparr>"
  by (simp add: fillInstagram_def split: option.split)

lemma fill_phone_fields:
  "(truthy (phone lead) \<longrightarrow> fillPhone allText lead = lead)
   \<and> email (fillPhone allText lead) = email lead
   \<and> instagram_url (fillPhone allText lead) = instagram_url lead
   \<and> fillPhone allText lead = lead\<lparr>phone := phone (fillPhone allText lead)\<rparr>"
  by (simp add: fillPhone_def split: option.split)

lemma fill_all_fields:
  "(truthy (email lead) \<longrightarrow>
      email (fillPhone t (fillInstagram t (fillEmail d t lead))) = email lead)
   \<and> (truthy (instagram_url lead) \<longrightarrow>
      instagram_url (fillPhone t (fillInstagram t (fillEmail d t lead))) = instagram_url lead)
   \<and> (truthy (phone lead) \<longrightarrow>
      phone (fillPhone t (fillInstagram t (fillEmail d t lead))) = phone lead)"
  using fill_email_fields [of lead d t] fill_instagram_fields [of "fillEmail d t lead" t]
    fill_phone_fields [of "fillInstagram t (fillEmail d t lead)" t]
  by metis

lemma enrichFromWebsite_cases:
  "enrichFromWebsite env lead = lead
   \<or> (\<exists>d t. enrichFromWebsite env lead = fillPhone t (fillInstagram t (fillEmail d t lead)))"
  by (simp add: enrichFromWebsite_def Let_def split: option.split) blast

lemma enrichStoredLead_fields:
  "(truthy (email lead) \<longrightarrow> email (enrichStoredLead env now lead) = email lead)
   \<and> (truthy (phone lead) \<longrightarrow> phone (enrichStoredLead env now lead) = phone lead)
   \<and> (truthy (instagram_url lead) \<longrightarrow>
        instagram_url (enrichStoredLead env now lead) = instagram_url lead)"
  by (simp add: enrichStoredLead_def enrichUpdates_def applyUpdates_def Let_def
      split: option.split)

lemma enrichFromWebsite_fields:
  "(truthy (email lead) \<longrightarrow> email (enrichFromWebsite env lead) = email lead)
   \<and> (truthy (phone lead) \<longrightarrow> phone (enrichFromWebsite env lead) = phone lead)
   \<and> (truthy (instagram_url lead) \<longrightarrow>
        instagram_url (enrichFromWebsite env lead) = instagram_url lead)"
proof -
  consider "enrichFromWebsite env lead = lead"
    | d t where "enrichFromWebsite env lead = fillPhone t (fillInstagram t (fillEmail d t lead))"
    using enrichFromWebsite_cases [of env lead] by blast
  then show ?thesis
  proof cases
    case 1
    then show ?thesis by simp
  next
    case 2
    show ?thesis
      unfolding 2 using fill_all_fields [where lead = lead and d = d and t = t] by simp
  qed
qed

text \<open>
  Claim C6, as stated: a field that is not \<open>null\<close> is never overwritten. The guards of
  the code test truthiness, \<open>if (!lead.email)\<close>, so an e-mail field that holds the empty
  string is not \<open>null\<close> and is filled all the same.
\<close>

theorem enrichment_overwrites_empty_email_counterexample:
  "email (enrichFromWebsite
     \<lparr>firecrawlKey = ''fc-key'',
      firecrawl = (\<lambda>url. if url = ''https://acme.com'' then Some ''Write to info@acme.com''
                         else None)\<rparr>
     \<lparr>business_name = ''Acme'', address = None, city = None, country = None, phone = None,
      email = Some [], website = Some ''https://acme.com'', instagram_url = None,
      google_rating = None, google_review_count = None, google_maps_url = None,
      source = ''google_maps''\<rparr>) = Some ''info@acme.com''"
  by code_simp

text \<open>
  Claim C6, amended: enrichment never overwrites a populated field. For every lead whose
  e-mail address (respectively phone number, Instagram address) is neither \<open>null\<close> nor the
  empty string, both enrichment paths (\<open>enrichFromWebsite\<close> of the search route and the
  update of a stored lead in the enrichment route) leave that field as it is, whatever
  the crawled pages contain; only a field that is \<open>null\<close> or empty can be filled.
\<close>

theorem enrichment_keeps_populated_fields:
  "(truthy (email lead_e) \<longrightarrow> email (enrichFromWebsite env lead_e) = email lead_e)
   \<and> (truthy (phone lead_p) \<longrightarrow> phone (enrichFromWebsite env lead_p) = phone lead_p)
   \<and> (truthy (instagram_url lead_i) \<longrightarrow>
        instagram_url (enrichFromWebsite env lead_i) = instagram_url lead_i)
   \<and> (truthy (email row_e) \<longrightarrow> email (enrichStoredLead env now row_e) = email row_e)
   \<and> (truthy (phone row_p) \<longrightarrow> phone (enrichStoredLead env now row_p) = phone row_p)
   \<and> (truthy (instagram_url row_i) \<longrightarrow>
        instagram_url (enrichStoredLead env now row_i) = instagram_url row_i)"
proof (intro conjI)
  show "truthy (email lead_e) \<longrightarrow> email (enrichFromWebsite env lead_e) = email lead_e"
    using enrichFromWebsite_fields [of lead_e env] by (rule conjunct1)
  show "truthy (phone lead_p) \<longrightarrow> phone (enrichFromWebsite env lead_p) = phone lead_p"
    using enrichFromWebsite_fields [of lead_p env] by (elim conjE)
  show "truthy (instagram_url lead_i) \<longrightarrow>
        instagram_url (enrichFromWebsite env lead_i) = instagram_url lead_i"
    using enrichFromWebsite_fields [of lead_i env] by (elim conjE)
  show "truthy (email row_e) \<longrightarrow> email (enrichStoredLead env now row_e) = email row_e"
    using enrichStoredLead_fields [of row_e env now] by (rule conjunct1)
  show "truthy (phone row_p) \<longrightarrow> phone (enrichStoredLead env now row_p) = phone row_p"
    using enrichStoredLead_fields [of row_p env now] by (elim conjE)
  show "truthy (instagram_url row_i) \<longrightarrow>
        instagram_url (enrichStoredLead env now row_i) = instagram_url row_i"
    using enrichStoredLead_fields [of row_i env now] by (elim conjE)
qed

text \<open>
  Two leads that are crawled on both paths, with a page that names another address,
  another Instagram profile and another phone number. The first has an e-mail address
  and a phone number and no Instagram address: the crawl fills the Instagram address.
  The second has an Instagram address only: the crawl fills the e-mail address.
\<close>

lemma crawl_fills_instagram:
  "instagram_url (enrichFromWebsite
      \<lparr>firecrawlKey = ''fc-key'',
       firecrawl = (\<lambda>url. Some ''sales@other.com instagram.com/other_biz 020 7946 0000'')\<rparr>
      \<lparr>business_name = ''Acme'', address = None, city = None, country = None,
       phone = Some ''020 7946 0958'', email = Some ''owner@acme.com'',
       website = Some ''https://acme.com'', instagram_url = None, google_rating = None,
       google_review_count = None, google_maps_url = None, source = ''google_maps''\<rparr>) = Some ''https://instagram.com/other_biz''"
  by code_simp

lemma crawl_fills_email:
  "email (enrichFromWebsite
      \<lparr>firecrawlKey = ''fc-key'',
       firecrawl = (\<lambda>url. Some ''sales@other.com instagram.com/other_biz 020 7946 0000'')\<rparr>
      \<lparr>business_name = ''Acme'', address = None, city = None, country = None,
       phone = None, email = None, website = Some ''https://acme.com'',
       instagram_url = Some ''https://instagram.com/acme'', google_rating = None,
       google_review_count = None, google_maps_url = None, source = ''google_maps''\<rparr>) = Some ''sales@other.com''"
  by code_simp

lemma stored_crawl_fills_instagram:
  "instagram_url (enrichStoredLead
      \<lparr>firecrawlKey = ''fc-key'',
       firecrawl = (\<lambda>url. Some ''sales@other.com instagram.com/other_biz 020 7946 0000'')\<rparr> ''2024-06-01T12:00:00.000Z''
      \<lparr>business_name = ''Acme'', address = None, city = None, country = None,
       phone = Some ''020 7946 0958'', email = Some ''owner@acme.com'',
       website = Some ''https://acme.com'', instagram_url = None, google_rating = None,
       google_review_count = None, google_maps_url = None, source = ''google_maps'',
       updated_at = Some ''2024-01-01T00:00:00.000Z''\<rparr>) = Some ''https://instagram.com/other_biz''
   \<and> updated_at (enrichStoredLead
      \<lparr>firecrawlKey = ''fc-key'',
       firecrawl = (\<lambda>url. Some ''sales@other.com instagram.com/other_biz 020 7946 0000'')\<rparr> ''2024-06-01T12:00:00.000Z''
      \<lparr>business_name = ''Acme'', address = None, city = None, country = None,
       phone = Some ''020 7946 0958'', email = Some ''owner@acme.com'',
       website = Some ''https://acme.com'', instagram_url = None, google_rating = None,
       google_review_count = None, google_maps_url = None, source = ''google_maps'',
       updated_at = Some ''2024-01-01T00:00:00.000Z''\<rparr>) = Some ''2024-06-01T12:00:00.000Z''"
  by code_simp

lemma stored_crawl_fills_email:
  "email (enrichStoredLead
      \<lparr>firecrawlKey = ''fc-key'',
       firecrawl = (\<lambda>url. Some ''sales@other.com instagram.com/other_biz 020 7946 0000'')\<rparr> ''2024-06-01T12:00:00.000Z''
      \<lparr>business_name = ''Acme'', address = None, city = None, country = None,
       phone = None, email = None, website = Some ''https://acme.com'',
       instagram_url = Some ''https://instagram.com/acme'', google_rating = None,
       google_review_count = None, google_maps_url = None, source = ''google_maps'',
       updated_at = Some ''2024-01-01T00:00:00.000Z''\<rparr>) = Some ''sales@other.com''"
  by code_simp

theorem enrichment_keeps_populated_fields_witness:
  "let env = \<lparr>firecrawlKey = ''fc-key'',
       firecrawl = (\<lambda>url. Some ''sales@other.com instagram.com/other_biz 020 7946 0000'')\<rparr>;
       lead_a = \<lparr>business_name = ''Acme'', address = None, city = None, country = None,
       phone = Some ''020 7946 0958'', email = Some ''owner@acme.com'',
       website = Some ''https://acme.com'', instagram_url = None, google_rating = None,
       google_review_count = None, google_maps_url = None, source = ''google_maps''\<rparr>;
       lead_b = \<lparr>business_name = ''Acme'', address = None, city = None, country = None,
       phone = None, email = None, website = Some ''https://acme.com'',
       instagram_url = Some ''https://instagram.com/acme'', google_rating = None,
       google_review_count = None, google_maps_url = None, source = ''google_maps''\<rparr>;
       row_a = \<lparr>business_name = ''Acme'', address = None, city = None, country = None,
       phone = Some ''020 7946 0958'', email = Some ''owner@acme.com'',
       website = Some ''https://acme.com'', instagram_url = None, google_rating = None,
       google_review_count = None, google_maps_url = None, source = ''google_maps'',
       updated_at = Some ''2024-01-01T00:00:00.000Z''\<rparr>;
       row_b = \<lparr>business_name = ''Acme'', address = None, city = None, country = None,
       phone = None, email = None, website = Some ''https://acme.com'',
       instagram_url = Some ''https://instagram.com/acme'', google_rating = None,
       google_review_count = None, google_maps_url = None, source = ''google_maps'',
       updated_at = Some ''2024-01-01T00:00:00.000Z''\<rparr>;
       now = ''2024-06-01T12:00:00.000Z''
   in email (enrichFromWebsite env lead_a) = Some ''owner@acme.com''
      \<and> phone (enrichFromWebsite env lead_a) = Some ''020 7946 0958''
      \<and> instagram_url (enrichFromWebsite env lead_a) = Some ''https://instagram.com/other_biz''
      \<and> instagram_url (enrichFromWebsite env lead_b) = Some ''https://instagram.com/acme''
      \<and> email (enrichFromWebsite env lead_b) = Some ''sales@other.com''
      \<and> email (enrichStoredLead env now row_a) = Some ''owner@acme.com''
      \<and> phone (enrichStoredLead env now row_a) = Some ''020 7946 0958''
      \<and> instagram_url (enrichStoredLead env now row_a) = Some ''https://instagram.com/other_biz''
      \<and> instagram_url (enrichStoredLead env now row_b) = Some ''https://instagram.com/acme''
      \<and> email (enrichStoredLead env now row_b) = Some ''sales@other.com''"
  using enrichment_keeps_populated_fields
    [where lead_e = "\<lparr>business_name = ''Acme'', address = None, city = None, country = None,
       phone = Some ''020 7946 0958'', email = Some ''owner@acme.com'',
       website = Some ''https://acme.com'', instagram_url = None, google_rating = None,
       google_review_count = None, google_maps_url = None, source = ''google_maps''\<rparr>"
       and lead_p = "\<lparr>business_name = ''Acme'', address = None, city = None, country = None,
       phone = Some ''020 7946 0958'', email = Some ''owner@acme.com'',
       website = Some ''https://acme.com'', instagram_url = None, google_rating = None,
       google_review_count = None, google_maps_url = None, source = ''google_maps''\<rparr>"
       and lead_i = "\<lparr>business_name = ''Acme'', address = None, city = None, country = None,
       phone = None, email = None, website = Some ''https://acme.com'',
       instagram_url = Some ''https://instagram.com/acme'', google_rating = None,
       google_review_count = None, google_maps_url = None, source = ''google_maps''\<rparr>"
       and row_e = "\<lparr>business_name = ''Acme'', address = None, city = None, country = None,
       phone = Some ''020 7946 0958'', email = Some ''owner@acme.com'',
       website = Some ''https://acme.com'', instagram_url = None, google_rating = None,
       google_review_count = None, google_maps_url = None, source = ''google_maps'',
       updated_at = Some ''2024-01-01T00:00:00.000Z''\<rparr>"
       and row_p = "\<lparr>business_name = ''Acme'', address = None, city = None, country = None,
       phone = Some ''020 7946 0958'', email = Some ''owner@acme.com'',
       website = Some ''https://acme.com'', instagram_url = None, google_rating = None,
       google_review_count = None, google_maps_url = None, source = ''google_maps'',
       updated_at = Some ''2024-01-01T00:00:00.000Z''\<rparr>"
       and row_i = "\<lparr>business_name = ''Acme'', address = None, city = None, country = None,
       phone = None, email = None, website = Some ''https://acme.com'',
       instagram_url = Some ''https://instagram.com/acme'', google_rating = None,
       google_review_count = None, google_maps_url = None, source = ''google_maps'',
       updated_at = Some ''2024-01-01T00:00:00.000Z''\<rparr>"
       and now = "''2024-06-01T12:00:00.000Z''"
       and env = "\<lparr>firecrawlKey = ''fc-key'',
       firecrawl = (\<lambda>url. Some ''sales@other.com instagram.com/other_biz 020 7946 0000'')\<rparr>"]
    crawl_fills_instagram crawl_fills_email stored_crawl_fills_instagram
    stored_crawl_fills_email
  by (simp add: truthy_def Let_def)

text \<open>A crawl that finds an address: the lead it returns differs in the e-mail field
  only.\<close>

lemma enrich_example:
  "enrichFromWebsite
     \<lparr>firecrawlKey = ''fc-key'',
      firecrawl = (\<lambda>url. if url = ''https://acme.com'' then Some ''Write to info@acme.com''
                         else None)\<rparr>
     \<lparr>business_name = ''Acme'', address = None, city = None, country = None, phone = None,
      email = None, website = Some ''https://acme.com'', instagram_url = None,
      google_rating = None, google_review_count = None, google_maps_url = None,
      source = ''google_maps''\<rparr>
   = \<lparr>business_name = ''Acme'', address = None, city = None, country = None, phone = None,
      email = Some ''info@acme.com'', website = Some ''https://acme.com'', instagram_url = None,
      google_rating = None, google_review_count = None, google_maps_url = None,
      source = ''google_maps''\<rparr>"
  by code_simp

section \<open>The preference order of the e-mail selection\<close>

text \<open>The head of the stable sort is the first element that no other element
  precedes in the order of the comparator.\<close>

lemma sortBy_Cons: "sortBy cmp (x # xs) = insertBy cmp x (sortBy cmp xs)"
  by (simp add: sortBy_def)

lemma hd_insertBy:
  "hd (insertBy cmp x ys) = (if ys = [] \<or> cmp x (hd ys) \<le> 0 then x else hd ys)"
  by (cases ys) auto

lemma insertBy_not_Nil: "insertBy cmp x ys \<noteq> []"
  by (cases ys) auto

lemma sortBy_Nil_iff: "sortBy cmp xs = [] \<longleftrightarrow> xs = []"
  by (cases xs) (simp_all add: sortBy_def insertBy_not_Nil)

lemma hd_sortBy_first_least:
  assumes total: "\<And>a b. cmp a b \<le> 0 \<or> cmp b a \<le> 0"
    and trans: "\<And>a b c. cmp a b \<le> 0 \<Longrightarrow> cmp b c \<le> 0 \<Longrightarrow> cmp a c \<le> 0"
    and "xs \<noteq> []"
  shows "\<exists>i<length xs. hd (sortBy cmp xs) = xs ! i
           \<and> (\<forall>j<length xs. cmp (xs ! i) (xs ! j) \<le> 0)
           \<and> (\<forall>j<i. \<not> cmp (xs ! j) (xs ! i) \<le> 0)"
  using \<open>xs \<noteq> []\<close>
proof (induction xs)
  case Nil
  then show ?case by simp
next
  case (Cons x xs)
  show ?case
  proof (cases "xs = []")
    case True
    have "cmp x x \<le> 0" using total [of x x] by simp
    with True show ?thesis by (simp add: sortBy_def)
  next
    case False
    then obtain i where i: "i < length xs" "hd (sortBy cmp xs) = xs ! i"
      "\<forall>j<length xs. cmp (xs ! i) (xs ! j) \<le> 0" "\<forall>j<i. \<not> cmp (xs ! j) (xs ! i) \<le> 0"
      using Cons.IH by blast
    have ne: "sortBy cmp xs \<noteq> []" using False by (simp add: sortBy_Nil_iff)
    show ?thesis
    proof (cases "cmp x (xs ! i) \<le> 0")
      case True
      then have h: "hd (sortBy cmp (x # xs)) = (x # xs) ! 0"
        using i(2) ne by (simp add: sortBy_Cons hd_insertBy)
      have "cmp x ((x # xs) ! j) \<le> 0" if "j < length (x # xs)" for j
      proof (cases j)
        case 0
        then show ?thesis using total [of x x] by simp
      next
        case (Suc k)
        then have "cmp (xs ! i) (xs ! k) \<le> 0" using i(3) that by simp
        then show ?thesis using trans [OF True] Suc by simp
      qed
      then show ?thesis using h by (intro exI [of _ 0]) simp
    next
      case False
      then have h: "hd (sortBy cmp (x # xs)) = (x # xs) ! Suc i"
        using i(2) ne by (simp add: sortBy_Cons hd_insertBy)
      have le: "cmp (xs ! i) x \<le> 0" using total [of x "xs ! i"] False by blast
      have a: "cmp ((x # xs) ! Suc i) ((x # xs) ! j) \<le> 0" if "j < length (x # xs)" for j
        using that le i(3) by (cases j) simp_all
      have b: "\<not> cmp ((x # xs) ! j) ((x # xs) ! Suc i) \<le> 0" if "j < Suc i" for j
        using that False i(4) by (cases j) simp_all
      show ?thesis
        using h a b i(1) by (intro exI [of _ "Suc i"]) simp
    qed
  qed
qed

lemma emailCompare_le:
  "emailCompare dc a b \<le> 0 \<longleftrightarrow>
     domainRank dc a < domainRank dc b
     \<or> (domainRank dc a = domainRank dc b \<and> prefRank a \<le> prefRank b)"
  by (auto simp: emailCompare_def Let_def domainRank_def)

text \<open>
  What the selection does, for every page text: no address is selected when no match
  passes the filter; otherwise the selected address is, among the matches that pass, one
  that the comparator puts before or level with every other (an address that contains
  \<open>domainClean\<close> comes before one that does not, and between two of the same kind the
  one with the earlier prefix of \<open>prefOrder\<close> comes first), and it is the first such match
  of the page.
\<close>

lemma selectEmail_preference:
  "(filter keepEmail (matchAllEmails allText) = [] \<longrightarrow> selectEmail domain allText = None)
   \<and> (filter keepEmail (matchAllEmails allText) \<noteq> [] \<longrightarrow>
       (\<exists>i<length (filter keepEmail (matchAllEmails allText)).
          selectEmail domain allText = Some (filter keepEmail (matchAllEmails allText) ! i)
          \<and> (\<forall>j<length (filter keepEmail (matchAllEmails allText)).
                emailCompare (removeFirst ''www.'' domain)
                  (filter keepEmail (matchAllEmails allText) ! i)
                  (filter keepEmail (matchAllEmails allText) ! j) \<le> 0)
          \<and> (\<forall>j<i. \<not> emailCompare (removeFirst ''www.'' domain)
                  (filter keepEmail (matchAllEmails allText) ! j)
                  (filter keepEmail (matchAllEmails allText) ! i) \<le> 0)))"
proof -
  define emails where "emails = filter keepEmail (matchAllEmails allText)"
  define dc where "dc = removeFirst ''www.'' domain"
  have sel: "selectEmail domain allText =
      (case sortBy (emailCompare dc) emails of [] \<Rightarrow> None | e # _ \<Rightarrow> Some e)"
    by (simp add: selectEmail_def Let_def emails_def dc_def)
  have none: "selectEmail domain allText = None" if "emails = []"
    using that by (simp add: sel sortBy_def)
  have some: "\<exists>i<length emails. selectEmail domain allText = Some (emails ! i)
          \<and> (\<forall>j<length emails. emailCompare dc (emails ! i) (emails ! j) \<le> 0)
          \<and> (\<forall>j<i. \<not> emailCompare dc (emails ! j) (emails ! i) \<le> 0)" if ne: "emails \<noteq> []"
  proof -
    have total: "\<And>a b. emailCompare dc a b \<le> 0 \<or> emailCompare dc b a \<le> 0"
      unfolding emailCompare_le by linarith
    have trans: "\<And>a b c. emailCompare dc a b \<le> 0 \<Longrightarrow> emailCompare dc b c \<le> 0
        \<Longrightarrow> emailCompare dc a c \<le> 0"
      unfolding emailCompare_le by linarith
    have "sortBy (emailCompare dc) emails \<noteq> []"
      using ne by (simp add: sortBy_Nil_iff)
    then have "selectEmail domain allText = Some (hd (sortBy (emailCompare dc) emails))"
      unfolding sel by (cases "sortBy (emailCompare dc) emails") simp_all
    then show ?thesis
      using hd_sortBy_first_least [of "emailCompare dc" emails, OF total trans ne] by simp
  qed
  show ?thesis
    using none some unfolding emails_def dc_def by blast
qed

text \<open>
  Claim C7: among the matches that pass the noise filter, an address on the domain of
  the lead's own website is preferred over all others, then addresses that start with
  \<open>info@\<close>, \<open>hello@\<close>, \<open>contact@\<close>, \<open>enquiries@\<close>, \<open>bookings@\<close>, \<open>reception@\<close>, in that order,
  then the first remaining match. The code takes for the domain the website address
  without its scheme and without one slash at the end, and looks for that string inside
  each address. A website address with a path therefore matches no address at all: for
  the website \<open>https://acme.com/home\<close> and a page that names \<open>hello@partner.com\<close> and
  \<open>bookings@acme.com\<close>, the code selects the partner's address, not the one on the lead's
  domain \<open>acme.com\<close>.
\<close>

theorem email_domain_preference_failing_input:
  "email (enrichFromWebsite
     \<lparr>firecrawlKey = ''fc-key'',
      firecrawl = (\<lambda>url. if url = ''https://acme.com/home''
                         then Some ''Write to hello@partner.com or bookings@acme.com''
                         else None)\<rparr>
     \<lparr>business_name = ''Acme'', address = None, city = None, country = None, phone = None,
      email = None, website = Some ''https://acme.com/home'', instagram_url = None,
      google_rating = None, google_review_count = None, google_maps_url = None,
      source = ''google_maps''\<rparr>) = Some ''hello@partner.com''"
  by code_simp

text \<open>The scenario of the claim, where the website address is the bare origin: of
  \<open>someone@tracking-pixel.com\<close>, \<open>support@othersite.com\<close> and \<open>info@acme.com\<close>, in this order
  on the page, the last is selected.\<close>

lemma email_scenario_3:
  "email (enrichFromWebsite
     \<lparr>firecrawlKey = ''fc-key'',
      firecrawl = (\<lambda>url. if url = ''https://acme.com''
         then Some ''someone@tracking-pixel.com support@othersite.com info@acme.com''
         else None)\<rparr>
     \<lparr>business_name = ''Acme'', address = None, city = None, country = None, phone = None,
      email = None, website = Some ''https://acme.com'', instagram_url = None,
      google_rating = None, google_review_count = None, google_maps_url = None,
      source = ''google_maps''\<rparr>) = Some ''info@acme.com''"
  by code_simp

section \<open>Batches and the enrichment block of the search handler\<close>

text \<open>With a positive batch size the loop ends, having crawled every lead of
  \<open>needsEnrichment\<close> once, in order.\<close>

lemma enrichLoop_returns:
  "0 < m \<Longrightarrow> enrichLoop f needs m i acc = Some (acc @ map f (drop i needs))"
proof (induction "length needs - i" arbitrary: i acc rule: less_induct)
  case less
  show ?case
  proof (cases "i < length needs")
    case True
    have "length needs - (i + m) < length needs - i"
      using True less.prems by simp
    then have "enrichLoop f needs m (i + m) (acc @ map f (take m (drop i needs)))
        = Some ((acc @ map f (take m (drop i needs))) @ map f (drop (i + m) needs))"
      using less.hyps less.prems by blast
    moreover have "take m (drop i needs) @ drop (i + m) needs = drop i needs"
      by (metis add.commute append_take_drop_id drop_drop)
    ultimately show ?thesis
      using True by (subst enrichLoop.simps) (simp flip: map_append)
  next
    case False
    then show ?thesis
      by (subst enrichLoop.simps) simp
  qed
qed

lemma batches_concat:
  "concat (map (\<lambda>k. take m (drop (k * m) xs)) [0..<n]) = take (n * m) xs"
proof (induction n)
  case 0
  then show ?case by simp
next
  case (Suc n)
  have "take (n * m) xs @ take m (drop (n * m) xs) = take (n * m + m) xs"
    by (simp add: take_add)
  then show ?case
    using Suc.IH by (simp add: add.commute)
qed

lemma batches_cover:
  assumes "0 < m"
  shows "concat (map (\<lambda>k. map f (take m (drop (k * m) xs))) [0..<(length xs + m - 1) div m])
     = map f xs"
proof -
  have "length xs \<le> ((length xs + m - 1) div m) * m"
  proof -
    have "length xs + m - 1 < ((length xs + m - 1) div m) * m + m"
      using assms by (metis div_mult_mod_eq mod_less_divisor nat_add_left_cancel_less)
    then show ?thesis using assms by linarith
  qed
  then have "take (((length xs + m - 1) div m) * m) xs = xs"
    by simp
  then have "concat (map (\<lambda>k. take m (drop (k * m) xs)) [0..<(length xs + m - 1) div m]) = xs"
    by (simp add: batches_concat)
  then have "map f (concat (map (\<lambda>k. take m (drop (k * m) xs)) [0..<(length xs + m - 1) div m]))
      = map f xs"
    by simp
  then show ?thesis
    by (simp add: map_concat comp_def)
qed

lemma complete_or_needs: "alreadyComplete l \<longleftrightarrow> \<not> needsEnrichment l"
  by (auto simp: alreadyComplete_def needsEnrichment_def)

lemma enrichLeadsBatch_returns:
  "0 < m \<Longrightarrow>
   enrichLeadsBatch env leads m =
     Some (filter alreadyComplete leads @ map (enrichFromWebsite env) (filter needsEnrichment leads))"
proof -
  assume m: "0 < m"
  show ?thesis
  proof (cases "filter needsEnrichment leads = []")
    case True
    then have "\<forall>l \<in> set leads. alreadyComplete l"
      by (simp add: filter_empty_conv complete_or_needs)
    then have "filter alreadyComplete leads = leads"
      by (simp add: filter_id_conv)
    then show ?thesis
      using True by (simp add: enrichLeadsBatch_def Let_def)
  next
    case False
    then show ?thesis
      using enrichLoop_returns [OF m, of "enrichFromWebsite env" "filter needsEnrichment leads" 0 "[]"]
      by (simp add: enrichLeadsBatch_def Let_def)
  qed
qed

lemma autoEnrich_handler:
  "autoEnrich (firecrawlKey env) (handlerEnrichBatch env) unique =
     Some (if firecrawlKey env = [] then unique
           else filter alreadyComplete (take 15 unique)
                @ map (enrichFromWebsite env) (filter needsEnrichment (take 15 unique))
                @ drop 15 unique)"
  by (simp add: autoEnrich_def handlerEnrichBatch_def enrichLeadsBatch_returns Let_def)

text \<open>
  Claim C10: in the search handler, enrichment is applied to the first 15 de-duplicated
  results at most. Without a Firecrawl credential the results are returned as they are,
  and so they are when the call of the batch enrichment throws. With a credential, the
  handler returns the first 15 results after enrichment (those that need none first, then
  the crawled ones) followed by the results from the 16th on, untouched; the crawled
  leads are processed in slices of 3, one slice after the other, at most 5 of them.
\<close>

theorem auto_enrich_first_15:
  "autoEnrich [] enrichBatch unique = Some unique
   \<and> (enrichBatch (take 15 unique) 3 = Some (Inl e) \<longrightarrow>
        autoEnrich key enrichBatch unique = Some unique)
   \<and> (firecrawlKey env \<noteq> [] \<longrightarrow>
        autoEnrich (firecrawlKey env) (handlerEnrichBatch env) unique =
          Some (filter alreadyComplete (take 15 unique)
                @ map (enrichFromWebsite env) (filter needsEnrichment (take 15 unique))
                @ drop 15 unique)
        \<and> enrichLoop (enrichFromWebsite env) (filter needsEnrichment (take 15 unique)) 3 0 [] =
            Some (concat (map (\<lambda>k. map (enrichFromWebsite env)
                                  (take 3 (drop (k * 3) (filter needsEnrichment (take 15 unique)))))
                    [0..<(length (filter needsEnrichment (take 15 unique)) + 2) div 3]))
        \<and> (length (filter needsEnrichment (take 15 unique)) + 2) div 3 \<le> 5)"
proof -
  let ?needs = "filter needsEnrichment (take 15 unique)"
  have a: "autoEnrich [] enrichBatch unique = Some unique"
    by (simp add: autoEnrich_def)
  have b: "autoEnrich key enrichBatch unique = Some unique"
    if "enrichBatch (take 15 unique) 3 = Some (Inl e)"
    using that by (simp add: autoEnrich_def Let_def)
  have c: "autoEnrich (firecrawlKey env) (handlerEnrichBatch env) unique =
          Some (filter alreadyComplete (take 15 unique)
                @ map (enrichFromWebsite env) ?needs @ drop 15 unique)"
    if "firecrawlKey env \<noteq> []"
    using that by (simp add: autoEnrich_handler)
  have "enrichLoop (enrichFromWebsite env) ?needs 3 0 [] = Some (map (enrichFromWebsite env) ?needs)"
    using enrichLoop_returns [of 3 "enrichFromWebsite env" ?needs 0 "[]"] by simp
  then have d: "enrichLoop (enrichFromWebsite env) ?needs 3 0 [] =
      Some (concat (map (\<lambda>k. map (enrichFromWebsite env) (take 3 (drop (k * 3) ?needs)))
                    [0..<(length ?needs + 2) div 3]))"
    using batches_cover [of 3 "enrichFromWebsite env" ?needs] by simp
  have "length ?needs \<le> 15"
    by (rule order_trans [OF length_filter_le]) simp
  then have e: "(length ?needs + 2) div 3 \<le> 5"
    by linarith
  show ?thesis
    using a b c d e by blast
qed

theorem auto_enrich_first_15_witness:
  "let env = \<lparr>firecrawlKey = ''fc-key'',
                firecrawl = (\<lambda>url. if url = ''https://acme.com'' then Some ''Write to info@acme.com''
                                   else None)\<rparr>;
       lead = \<lparr>business_name = ''Acme'', address = None, city = None, country = None,
                phone = None, email = None, website = Some ''https://acme.com'',
                instagram_url = None, google_rating = None, google_review_count = None,
                google_maps_url = None, source = ''google_maps''\<rparr>
   in autoEnrich ''fc-key'' (\<lambda>leads maxConcurrent. Some (Inl Thrown)) (replicate 16 lead)
        = Some (replicate 16 lead)
      \<and> autoEnrich (firecrawlKey env) (handlerEnrichBatch env) (replicate 16 lead)
        = Some (replicate 15 (lead\<lparr>email := Some ''info@acme.com''\<rparr>) @ [lead])"
proof -
  define env where "env = \<lparr>firecrawlKey = ''fc-key'',
                firecrawl = (\<lambda>url. if url = ''https://acme.com'' then Some ''Write to info@acme.com''
                                   else None)\<rparr>"
  define lead where "lead = \<lparr>business_name = ''Acme'', address = None, city = None, country = None,
                phone = None, email = None, website = Some ''https://acme.com'',
                instagram_url = None, google_rating = None, google_review_count = None,
                google_maps_url = None, source = ''google_maps''\<rparr>"
  note inst = auto_enrich_first_15
    [of "\<lambda>leads maxConcurrent. Some (Inl Thrown)" "replicate 16 lead" Thrown "''fc-key''" env]
  have thrown: "autoEnrich ''fc-key'' (\<lambda>leads maxConcurrent. Some (Inl Thrown)) (replicate 16 lead)
        = Some (replicate 16 lead)"
    using inst by simp
  have needs: "needsEnrichment lead" "\<not> alreadyComplete lead"
    by (simp_all add: lead_def needsEnrichment_def alreadyComplete_def truthy_def)
  have crawl: "enrichFromWebsite env lead = lead\<lparr>email := Some ''info@acme.com''\<rparr>"
    unfolding env_def lead_def using enrich_example by simp
  have "firecrawlKey env \<noteq> []"
    by (simp add: env_def)
  then have "autoEnrich (firecrawlKey env) (handlerEnrichBatch env) (replicate 16 lead) =
          Some (filter alreadyComplete (take 15 (replicate 16 lead))
                @ map (enrichFromWebsite env) (filter needsEnrichment (take 15 (replicate 16 lead)))
                @ drop 15 (replicate 16 lead))"
    using inst by blast
  then have "autoEnrich (firecrawlKey env) (handlerEnrichBatch env) (replicate 16 lead)
        = Some (replicate 15 (lead\<lparr>email := Some ''info@acme.com''\<rparr>) @ [lead])"
    using needs crawl by simp
  with thrown show ?thesis
    unfolding Let_def env_def lead_def by blast
qed

section \<open>Adapter failures in the search handler\<close>

lemma not_all_source: "nm \<in> set sourceNames \<Longrightarrow> nm \<noteq> ''all''"
  by (auto simp: sourceNames_def)

lemma runSources_single_failure:
  "src \<in> set names \<Longrightarrow> src \<noteq> ''all'' \<Longrightarrow> adapters src = Inl e \<Longrightarrow>
   runSources src adapters names st = Inl e"
proof (induction names arbitrary: st)
  case Nil
  then show ?case by simp
next
  case (Cons nm names)
  show ?case
  proof (cases "src = nm")
    case True
    then show ?thesis
      using Cons.prems by (simp add: runSource_def trySource_def Let_def)
  next
    case False
    then have "runSource src adapters nm st = Inr st"
      using Cons.prems by (simp add: runSource_def)
    then show ?thesis
      using Cons.IH [of st] Cons.prems False by simp
  qed
qed

lemma runSource_all:
  "\<exists>st1. runSource ''all'' adapters nm st = Inr st1
     \<and> results st1 = results st @ (case adapters nm of Inl e \<Rightarrow> [] | Inr r \<Rightarrow> r)
     \<and> errors st1 = errors st
          @ (case adapters nm of
               Inl e \<Rightarrow> [case e of Error m \<Rightarrow> m | Thrown \<Rightarrow> nm @ '' failed'']
             | Inr r \<Rightarrow> [])
     \<and> sourceStats st1 =
          (sourceStats st)(nm \<mapsto> (case adapters nm of Inl e \<Rightarrow> 0 | Inr r \<Rightarrow> length r))"
proof (cases "adapters nm")
  case (Inl e)
  then show ?thesis
    by (simp add: runSource_def trySource_def Let_def)
next
  case (Inr r)
  then show ?thesis
    by (cases "r = []") (simp_all add: runSource_def trySource_def)
qed

lemma runSources_all:
  "\<exists>st'. runSources ''all'' adapters names st = Inr st'
     \<and> results st' = results st
          @ concat (map (\<lambda>nm. case adapters nm of Inl e \<Rightarrow> [] | Inr r \<Rightarrow> r) names)
     \<and> errors st' = errors st
          @ concat (map (\<lambda>nm. case adapters nm of
                                Inl e \<Rightarrow> [case e of Error m \<Rightarrow> m | Thrown \<Rightarrow> nm @ '' failed'']
                              | Inr r \<Rightarrow> []) names)
     \<and> (\<forall>nm. sourceStats st' nm =
          (if nm \<in> set names then Some (case adapters nm of Inl e \<Rightarrow> 0 | Inr r \<Rightarrow> length r)
           else sourceStats st nm))"
proof (induction names arbitrary: st)
  case Nil
  then show ?case by simp
next
  case (Cons nm names)
  obtain st1 where st1: "runSource ''all'' adapters nm st = Inr st1"
    "results st1 = results st @ (case adapters nm of Inl e \<Rightarrow> [] | Inr r \<Rightarrow> r)"
    "errors st1 = errors st
       @ (case adapters nm of
            Inl e \<Rightarrow> [case e of Error m \<Rightarrow> m | Thrown \<Rightarrow> nm @ '' failed'']
          | Inr r \<Rightarrow> [])"
    "sourceStats st1 = (sourceStats st)(nm \<mapsto> (case adapters nm of Inl e \<Rightarrow> 0 | Inr r \<Rightarrow> length r))"
    using runSource_all [of adapters nm st] by blast
  obtain st' where st': "runSources ''all'' adapters names st1 = Inr st'"
    "results st' = results st1
          @ concat (map (\<lambda>nm. case adapters nm of Inl e \<Rightarrow> [] | Inr r \<Rightarrow> r) names)"
    "errors st' = errors st1
          @ concat (map (\<lambda>nm. case adapters nm of
                                Inl e \<Rightarrow> [case e of Error m \<Rightarrow> m | Thrown \<Rightarrow> nm @ '' failed'']
                              | Inr r \<Rightarrow> []) names)"
    "\<forall>n. sourceStats st' n =
          (if n \<in> set names then Some (case adapters n of Inl e \<Rightarrow> 0 | Inr r \<Rightarrow> length r)
           else sourceStats st1 n)"
    using Cons.IH [of st1] by blast
  have "runSources ''all'' adapters (nm # names) st = Inr st'"
    using st1(1) st'(1) by simp
  moreover have "results st' = results st
          @ concat (map (\<lambda>nm. case adapters nm of Inl e \<Rightarrow> [] | Inr r \<Rightarrow> r) (nm # names))"
    using st1(2) st'(2) by simp
  moreover have "errors st' = errors st
          @ concat (map (\<lambda>nm. case adapters nm of
                                Inl e \<Rightarrow> [case e of Error m \<Rightarrow> m | Thrown \<Rightarrow> nm @ '' failed'']
                              | Inr r \<Rightarrow> []) (nm # names))"
    using st1(3) st'(3) by simp
  moreover have "\<forall>n. sourceStats st' n =
          (if n \<in> set (nm # names) then Some (case adapters n of Inl e \<Rightarrow> 0 | Inr r \<Rightarrow> length r)
           else sourceStats st n)"
    using st1(4) st'(4) by simp
  ultimately show ?case by blast
qed

text \<open>
  Claim C8: on a request with niche and location, (1) when the caller names one of the
  six sources and its adapter throws, the handler answers with status 500 and the
  message of the error, and no result set; (2) when the caller asks for \<open>all\<close>, the
  handler answers with a result body whatever the adapters do: \<open>errors\<close> holds one message
  for each adapter that threw, in the order of the sources (and is left out when none
  threw), each of the six sources has its count in \<open>sourceStats\<close>, 0 for one that threw,
  and the results are the de-duplicated, enriched concatenation of what the other
  adapters returned.
\<close>

theorem search_source_failures:
  assumes "n \<noteq> []" and "l \<noteq> []"
  shows "(nm \<in> set sourceNames \<and> adapters nm = Inl e \<longrightarrow>
            POST env adapters \<lparr>req_niche = n, req_location = l, req_source = nm\<rparr>
              = Some (ErrorResponse 500 (case e of Error m \<Rightarrow> m | Thrown \<Rightarrow> ''Scraping failed'')))
         \<and> (\<exists>body.
              POST env adapters \<lparr>req_niche = n, req_location = l, req_source = ''all''\<rparr>
                = Some (OkResponse body)
              \<and> body_errors body =
                  (if \<forall>s \<in> set sourceNames. \<exists>r. adapters s = Inr r then None
                   else Some (concat (map (\<lambda>s. case adapters s of
                                   Inl e \<Rightarrow> [case e of Error m \<Rightarrow> m | Thrown \<Rightarrow> s @ '' failed'']
                                 | Inr r \<Rightarrow> []) sourceNames)))
              \<and> (\<forall>s \<in> set sourceNames.
                    body_sourceStats body s = Some (case adapters s of Inl e \<Rightarrow> 0 | Inr r \<Rightarrow> length r))
              \<and> autoEnrich (firecrawlKey env) (handlerEnrichBatch env)
                    (dedupe (concat (map (\<lambda>s. case adapters s of Inl e \<Rightarrow> [] | Inr r \<Rightarrow> r)
                                      sourceNames)))
                  = Some (body_results body)
              \<and> body_count body = length (body_results body))"
proof (intro conjI impI)
  assume h: "nm \<in> set sourceNames \<and> adapters nm = Inl e"
  then have "runSources nm adapters sourceNames
               \<lparr>results = [], errors = [], sourceStats = Map.empty\<rparr> = Inl e"
    using not_all_source [of nm] by (intro runSources_single_failure) simp_all
  then show "POST env adapters \<lparr>req_niche = n, req_location = l, req_source = nm\<rparr>
              = Some (ErrorResponse 500 (case e of Error m \<Rightarrow> m | Thrown \<Rightarrow> ''Scraping failed''))"
    using assms by (simp add: POST_def)
next
  let ?failures = "concat (map (\<lambda>s. case adapters s of
                                   Inl e \<Rightarrow> [case e of Error m \<Rightarrow> m | Thrown \<Rightarrow> s @ '' failed'']
                                 | Inr r \<Rightarrow> []) sourceNames)"
  let ?collected = "concat (map (\<lambda>s. case adapters s of Inl e \<Rightarrow> [] | Inr r \<Rightarrow> r) sourceNames)"
  obtain st where st: "runSources ''all'' adapters sourceNames
        \<lparr>results = [], errors = [], sourceStats = Map.empty\<rparr> = Inr st"
    "results st = ?collected" "errors st = ?failures"
    "\<forall>s. sourceStats st s =
          (if s \<in> set sourceNames then Some (case adapters s of Inl e \<Rightarrow> 0 | Inr r \<Rightarrow> length r)
           else None)"
    using runSources_all [of adapters sourceNames "\<lparr>results = [], errors = [], sourceStats = Map.empty\<rparr>"]
    by auto
  obtain R where R: "autoEnrich (firecrawlKey env) (handlerEnrichBatch env) (dedupe ?collected) = Some R"
    using autoEnrich_handler [of env "dedupe ?collected"] by blast
  have none: "?failures = [] \<longleftrightarrow> (\<forall>s \<in> set sourceNames. \<exists>r. adapters s = Inr r)"
  proof -
    have "(\<forall>x1. adapters s \<noteq> Inl x1) \<longleftrightarrow> (\<exists>r. adapters s = Inr r)" for s
      by (cases "adapters s") simp_all
    then show ?thesis
      by (auto split: sum.splits)
  qed
  let ?body = "\<lparr>body_results = R, body_count = length R, body_sourceStats = sourceStats st,
      body_enrichmentStats =
        \<lparr>withEmail = length (filter (\<lambda>r. truthy (email r)) R),
         withPhone = length (filter (\<lambda>r. truthy (phone r)) R),
         withInstagram = length (filter (\<lambda>r. truthy (instagram_url r)) R)\<rparr>,
      body_errors = (if length ?failures > 0 then Some ?failures else None)\<rparr>"
  have post: "POST env adapters \<lparr>req_niche = n, req_location = l, req_source = ''all''\<rparr>
      = Some (OkResponse ?body)"
    using assms st(1,2,3) R by (simp add: POST_def Let_def)
  have errs: "body_errors ?body =
      (if \<forall>s \<in> set sourceNames. \<exists>r. adapters s = Inr r then None else Some ?failures)"
    using none by simp
  show "\<exists>body.
              POST env adapters \<lparr>req_niche = n, req_location = l, req_source = ''all''\<rparr>
                = Some (OkResponse body)
              \<and> body_errors body =
                  (if \<forall>s \<in> set sourceNames. \<exists>r. adapters s = Inr r then None
                   else Some ?failures)
              \<and> (\<forall>s \<in> set sourceNames.
                    body_sourceStats body s = Some (case adapters s of Inl e \<Rightarrow> 0 | Inr r \<Rightarrow> length r))
              \<and> autoEnrich (firecrawlKey env) (handlerEnrichBatch env) (dedupe ?collected)
                  = Some (body_results body)
              \<and> body_count body = length (body_results body)"
    using post errs st(4) R by (intro exI [of _ ?body]) simp
qed

text \<open>The example of the claim: \<open>google_maps\<close> throws and \<open>yelp\<close> returns five leads.\<close>

theorem search_source_failures_witness:
  "let env = \<lparr>firecrawlKey = [], firecrawl = (\<lambda>url. None)\<rparr>;
       found = map (\<lambda>b. \<lparr>business_name = b, address = None, city = Some ''London'',
                 country = Some ''United Kingdom'', phone = None, email = None, website = None,
                 instagram_url = None, google_rating = None, google_review_count = None,
                 google_maps_url = None, source = ''yelp''\<rparr>)
                 [''Glow Spa'', ''Zen Den'', ''Skin Lab'', ''Pure Aesthetics'', ''The Retreat''];
       adapters = (\<lambda>s. if s = ''google_maps''
          then Inl (Error ''Outscraper API key not configured. Add it in Settings.'')
          else if s = ''yelp'' then Inr found else Inr [])
   in POST env adapters
        \<lparr>req_niche = ''med spa'', req_location = ''London'', req_source = ''google_maps''\<rparr>
        = Some (ErrorResponse 500 ''Outscraper API key not configured. Add it in Settings.'')
      \<and> (\<exists>body.
           POST env adapters
             \<lparr>req_niche = ''med spa'', req_location = ''London'', req_source = ''all''\<rparr>
             = Some (OkResponse body)
           \<and> body_errors body = Some [''Outscraper API key not configured. Add it in Settings.'']
           \<and> body_results body = found
           \<and> body_count body = 5
           \<and> body_sourceStats body ''google_maps'' = Some 0
           \<and> body_sourceStats body ''yelp'' = Some 5)"
proof -
  define env where "env = \<lparr>firecrawlKey = [], firecrawl = (\<lambda>url::string. None :: string option)\<rparr>"
  define found where "found = map (\<lambda>b. \<lparr>business_name = b, address = None, city = Some ''London'',
                 country = Some ''United Kingdom'', phone = None, email = None, website = None,
                 instagram_url = None, google_rating = None, google_review_count = None,
                 google_maps_url = None, source = ''yelp''\<rparr>)
                 [''Glow Spa'', ''Zen Den'', ''Skin Lab'', ''Pure Aesthetics'', ''The Retreat'']"
  define adapters where "adapters = (\<lambda>s. if s = ''google_maps''
          then Inl (Error ''Outscraper API key not configured. Add it in Settings.'')
          else if s = ''yelp'' then Inr found else Inr [])"
  note inst = search_source_failures
    [of "''med spa''" "''London''" "''google_maps''" adapters
        "Error ''Outscraper API key not configured. Add it in Settings.''" env]
  have single: "POST env adapters
        \<lparr>req_niche = ''med spa'', req_location = ''London'', req_source = ''google_maps''\<rparr>
        = Some (ErrorResponse 500 ''Outscraper API key not configured. Add it in Settings.'')"
    using inst by (simp add: adapters_def sourceNames_def)
  obtain body where b:
    "POST env adapters
       \<lparr>req_niche = ''med spa'', req_location = ''London'', req_source = ''all''\<rparr>
       = Some (OkResponse body)"
    "body_errors body =
       (if \<forall>s \<in> set sourceNames. \<exists>r. adapters s = Inr r then None
        else Some (concat (map (\<lambda>s. case adapters s of
                        Inl e \<Rightarrow> [case e of Error m \<Rightarrow> m | Thrown \<Rightarrow> s @ '' failed'']
                      | Inr r \<Rightarrow> []) sourceNames)))"
    "\<forall>s \<in> set sourceNames.
       body_sourceStats body s = Some (case adapters s of Inl e \<Rightarrow> 0 | Inr r \<Rightarrow> length r)"
    "autoEnrich (firecrawlKey env) (handlerEnrichBatch env)
       (dedupe (concat (map (\<lambda>s. case adapters s of Inl e \<Rightarrow> [] | Inr r \<Rightarrow> r) sourceNames)))
       = Some (body_results body)"
    "body_count body = length (body_results body)"
    using inst by auto
  have collected: "concat (map (\<lambda>s. case adapters s of Inl e \<Rightarrow> [] | Inr r \<Rightarrow> r) sourceNames) = found"
    by (simp add: adapters_def sourceNames_def)
  have "dedupe found = found"
    by (simp add: found_def dedupe_def trim_def toLowerCase_def toLowerChar_def isWhiteSpace_def)
  then have res: "body_results body = found"
    using b(4) unfolding collected by (simp add: env_def autoEnrich_def)
  have errs: "body_errors body = Some [''Outscraper API key not configured. Add it in Settings.'']"
    using b(2) by (simp add: adapters_def sourceNames_def)
  have cnt: "body_count body = 5"
    using b(5) res by (simp add: found_def)
  have stats: "body_sourceStats body ''google_maps'' = Some 0" "body_sourceStats body ''yelp'' = Some 5"
    using b(3) by (simp_all add: adapters_def sourceNames_def found_def)
  show ?thesis
    unfolding Let_def
    using single b(1) res errs cnt stats
    unfolding env_def adapters_def found_def by blast
qed

end
